theory Spec2Isabelle
  imports Main
begin

unbundle bit_operations_syntax

section \<open>Text\<close>

text \<open>
  A Python \<open>str\<close> is a sequence of Unicode code points, a \<open>bytes\<close> object a
  sequence of octets; both are kept as lists of naturals. Literals of the source
  are written through \<open>u\<close>.
\<close>

type_synonym ustr = "nat list"
type_synonym bytes = "nat list"

definition u :: "string \<Rightarrow> ustr" where
  "u s = map of_char s"

text \<open>\<open>s.encode("utf-8", errors="replace")\<close>: a lone surrogate cannot be encoded
  and the \<open>replace\<close> handler puts \<open>?\<close> in its place.\<close>

definition encode_cp :: "nat \<Rightarrow> bytes" where
  "encode_cp c =
     (if c < 0x80 then [c]
      else if c < 0x800 then [0xC0 + c div 64, 0x80 + c mod 64]
      else if 0xD800 \<le> c \<and> c \<le> 0xDFFF then [0x3F]
      else if c < 0x10000 then [0xE0 + c div 4096, 0x80 + c div 64 mod 64, 0x80 + c mod 64]
      else [0xF0 + c div 262144, 0x80 + c div 4096 mod 64, 0x80 + c div 64 mod 64,
            0x80 + c mod 64])"

definition encode_utf8 :: "ustr \<Rightarrow> bytes" where
  "encode_utf8 s = concat (map encode_cp s)"

text \<open>\<open>str.isspace\<close> on one character, as used by \<open>str.strip()\<close>.\<close>

definition isspace :: "nat \<Rightarrow> bool" where
  "isspace c \<longleftrightarrow>
     (0x09 \<le> c \<and> c \<le> 0x0D) \<or> (0x1C \<le> c \<and> c \<le> 0x20) \<or> c = 0x85 \<or> c = 0xA0 \<or>
     c = 0x1680 \<or> (0x2000 \<le> c \<and> c \<le> 0x200A) \<or> c = 0x2028 \<or> c = 0x2029 \<or>
     c = 0x202F \<or> c = 0x205F \<or> c = 0x3000"

definition strip :: "ustr \<Rightarrow> ustr" where
  "strip s = rev (dropWhile isspace (rev (dropWhile isspace s)))"

text \<open>\<open>s.rstrip("\n")\<close>\<close>

definition rstrip_nl :: "ustr \<Rightarrow> ustr" where
  "rstrip_nl s = rev (dropWhile (\<lambda>c. c = 10) (rev s))"

text \<open>Decimal rendering of an \<open>int\<close> inside an f-string.\<close>

fun digits :: "nat \<Rightarrow> ustr" where
  "digits n = (if n < 10 then [48 + n] else digits (n div 10) @ [48 + n mod 10])"

declare digits.simps [simp del]

definition str_int :: "int \<Rightarrow> ustr" where
  "str_int i = (if i < 0 then 45 # digits (nat (- i)) else digits (nat i))"

section \<open>SHA-256\<close>

text \<open>
  \<open>hashlib.sha256\<close> after FIPS 180-4. A 32-bit word is an \<open>int\<close> in
  \<open>0 ..< 2 ^ 32\<close>, with the wrap-around of each addition written out.
\<close>

type_synonym w32 = int
type_synonym hstate = "w32 \<times> w32 \<times> w32 \<times> w32 \<times> w32 \<times> w32 \<times> w32 \<times> w32"

definition add32 :: "w32 \<Rightarrow> w32 \<Rightarrow> w32" where
  "add32 x y = (x + y) mod 4294967296"

definition rotr32 :: "nat \<Rightarrow> w32 \<Rightarrow> w32" where
  "rotr32 n x = x div 2 ^ n + (x mod 2 ^ n) * 2 ^ (32 - n)"

definition not32 :: "w32 \<Rightarrow> w32" where
  "not32 x = 4294967295 - x"

text \<open>The round constants and the initial hash value, in decimal.\<close>

definition sha_k :: "w32 list" where
  "sha_k =
    [1116352408, 1899447441, 3049323471, 3921009573, 961987163, 1508970993,
     2453635748, 2870763221, 3624381080, 310598401, 607225278, 1426881987,
     1925078388, 2162078206, 2614888103, 3248222580, 3835390401, 4022224774,
     264347078, 604807628, 770255983, 1249150122, 1555081692, 1996064986,
     2554220882, 2821834349, 2952996808, 3210313671, 3336571891, 3584528711,
     113926993, 338241895, 666307205, 773529912, 1294757372, 1396182291,
     1695183700, 1986661051, 2177026350, 2456956037, 2730485921, 2820302411,
     3259730800, 3345764771, 3516065817, 3600352804, 4094571909, 275423344,
     430227734, 506948616, 659060556, 883997877, 958139571, 1322822218,
     1537002063, 1747873779, 1955562222, 2024104815, 2227730452, 2361852424,
     2428436474, 2756734187, 3204031479, 3329325298]"

definition sha_h0 :: hstate where
  "sha_h0 =
    (1779033703, 3144134277, 1013904242, 2773480762,
     1359893119, 2600822924, 528734635, 1541459225)"

definition ch :: "w32 \<Rightarrow> w32 \<Rightarrow> w32 \<Rightarrow> w32" where
  "ch x y z = (x AND y) XOR (not32 x AND z)"

definition maj :: "w32 \<Rightarrow> w32 \<Rightarrow> w32 \<Rightarrow> w32" where
  "maj x y z = (x AND y) XOR (x AND z) XOR (y AND z)"

definition big_sigma0 :: "w32 \<Rightarrow> w32" where
  "big_sigma0 x = rotr32 2 x XOR rotr32 13 x XOR rotr32 22 x"

definition big_sigma1 :: "w32 \<Rightarrow> w32" where
  "big_sigma1 x = rotr32 6 x XOR rotr32 11 x XOR rotr32 25 x"

definition small_sigma0 :: "w32 \<Rightarrow> w32" where
  "small_sigma0 x = rotr32 7 x XOR rotr32 18 x XOR x div 2 ^ 3"

definition small_sigma1 :: "w32 \<Rightarrow> w32" where
  "small_sigma1 x = rotr32 17 x XOR rotr32 19 x XOR x div 2 ^ 10"

text \<open>The message schedule is kept as a window of sixteen words, oldest first.\<close>

definition next_word :: "w32 list \<Rightarrow> w32" where
  "next_word win =
     add32 (add32 (add32 (small_sigma1 (win ! 14)) (win ! 9)) (small_sigma0 (win ! 1))) (win ! 0)"

fun round_out :: "hstate \<Rightarrow> w32 \<Rightarrow> w32 \<Rightarrow> hstate" where
  "round_out (a, b, c, d, e, f, g, h) t1 t2 = (add32 t1 t2, a, b, c, add32 d t1, e, f, g)"

fun sha_round :: "hstate \<Rightarrow> w32 \<Rightarrow> w32 \<Rightarrow> hstate" where
  "sha_round (a, b, c, d, e, f, g, h) k w =
     round_out (a, b, c, d, e, f, g, h)
       (add32 (add32 (add32 (add32 h (big_sigma1 e)) (ch e f g)) k) w)
       (add32 (big_sigma0 a) (maj a b c))"

fun rounds :: "w32 list \<Rightarrow> w32 list \<Rightarrow> hstate \<Rightarrow> hstate" where
  "rounds [] win st = st"
| "rounds (k # ks) win st = rounds ks (tl win @ [next_word win]) (sha_round st k (hd win))"

fun add_state :: "hstate \<Rightarrow> hstate \<Rightarrow> hstate" where
  "add_state (a, b, c, d, e, f, g, h) (a', b', c', d', e', f', g', h') =
     (add32 a a', add32 b b', add32 c c', add32 d d',
      add32 e e', add32 f f', add32 g g', add32 h h')"

definition compress :: "hstate \<Rightarrow> w32 list \<Rightarrow> hstate" where
  "compress hs blk = add_state hs (rounds sha_k blk hs)"

fun be32 :: "bytes \<Rightarrow> w32 list" where
  "be32 (a # b # c # d # rest) =
     (int a * 16777216 + int b * 65536 + int c * 256 + int d) # be32 rest"
| "be32 _ = []"

fun sha_blocks :: "hstate \<Rightarrow> w32 list \<Rightarrow> hstate" where
  "sha_blocks hs ws =
     (if length ws < 16 then hs else sha_blocks (compress hs (take 16 ws)) (drop 16 ws))"

declare sha_blocks.simps [simp del]

definition be64 :: "nat \<Rightarrow> bytes" where
  "be64 n = map (\<lambda>i. n div 256 ^ i mod 256) [7, 6, 5, 4, 3, 2, 1, 0]"

definition sha_pad :: "bytes \<Rightarrow> bytes" where
  "sha_pad m =
     m @ [128] @ replicate ((119 - length m mod 64) mod 64) 0 @ be64 (8 * length m)"

definition sha256 :: "bytes \<Rightarrow> hstate" where
  "sha256 m = sha_blocks sha_h0 (be32 (sha_pad m))"

definition hex_digit :: "int \<Rightarrow> nat" where
  "hex_digit n = u ''0123456789abcdef'' ! nat (n mod 16)"

definition hex32 :: "w32 \<Rightarrow> ustr" where
  "hex32 w = map (\<lambda>i. hex_digit (w div 16 ^ i)) [7, 6, 5, 4, 3, 2, 1, 0]"

fun hex_state :: "hstate \<Rightarrow> ustr" where
  "hex_state (a, b, c, d, e, f, g, h) =
     hex32 a @ hex32 b @ hex32 c @ hex32 d @ hex32 e @ hex32 f @ hex32 g @ hex32 h"

definition hexdigest :: "bytes \<Rightarrow> ustr" where
  "hexdigest m = hex_state (sha256 m)"

section \<open>The program\<close>

subsection \<open>What the program sees of its surroundings\<close>

text \<open>
  \<open>pathlib\<close>, the file system, the clock and the \<open>git\<close> executable are not
  part of the program. They are a parameter: a record of the operations the source
  calls, over any type \<open>'p\<close> of path objects.
  \<^item> \<open>git_output args\<close> is the decoded standard output of \<open>git args\<close>, or \<open>None\<close>
    when \<open>subprocess.check_output\<close> raises (no executable, non-zero exit);
  \<^item> \<open>fs_node p\<close> is what the file system holds at \<open>p\<close> during the run: nothing;
    something that is not a regular file; a regular file, with its text as
    \<open>read_text(encoding="utf-8", errors="replace")\<close> decodes it; a regular file that
    cannot be opened; or a path whose \<open>stat\<close> fails with an error other than
    \<open>ENOENT\<close>, \<open>ENOTDIR\<close>, \<open>EBADF\<close> and \<open>ELOOP\<close> (a name that is too long, a
    directory that may not be searched);
  \<^item> \<open>resolve\<close> and \<open>relative_to\<close> are \<open>None\<close> when the call raises;
  \<^item> \<open>cwd\<close> is the working directory, taken to exist.
\<close>

datatype fsnode = Absent | NonRegular | Regular ustr | Unreadable | StatError

datatype exn = OSError

record 'p os_env =
  git_output :: "ustr list \<Rightarrow> ustr option"
  utc_now :: ustr
  Path :: "ustr \<Rightarrow> 'p"
  is_absolute :: "'p \<Rightarrow> bool"
  joinpath :: "'p \<Rightarrow> 'p \<Rightarrow> 'p"
  cwd :: 'p
  fs_node :: "'p \<Rightarrow> fsnode"
  resolve :: "'p \<Rightarrow> 'p option"
  relative_to :: "'p \<Rightarrow> 'p \<Rightarrow> 'p option"
  path_str :: "'p \<Rightarrow> ustr"
  path_name :: "'p \<Rightarrow> ustr"

text \<open>Every call that leaves the process is logged, in order.\<close>

datatype 'p event =
    GitQuery "ustr list"
  | Getcwd
  | Exists 'p
  | IsFile 'p
  | ReadText 'p
  | Resolve 'p

text \<open>
  \<open>Path.exists()\<close> and \<open>Path.is_file()\<close> answer \<open>False\<close> for the four error
  numbers above and pass every other \<open>OSError\<close> on to the caller: \<open>Inl\<close> is the
  exception raised.
\<close>

definition path_exists :: "'p os_env \<Rightarrow> 'p \<Rightarrow> exn + bool" where
  "path_exists env p =
     (case fs_node env p of
        StatError \<Rightarrow> Inl OSError
      | Absent \<Rightarrow> Inr False
      | _ \<Rightarrow> Inr True)"

definition path_is_file :: "'p os_env \<Rightarrow> 'p \<Rightarrow> exn + bool" where
  "path_is_file env p =
     (case fs_node env p of
        StatError \<Rightarrow> Inl OSError
      | Regular t \<Rightarrow> Inr True
      | Unreadable \<Rightarrow> Inr True
      | _ \<Rightarrow> Inr False)"

subsection \<open>Helpers of the source\<close>

definition DEFAULT_MAX_FILES :: int where
  "DEFAULT_MAX_FILES = 5"

definition DEFAULT_MAX_BYTES :: int where
  "DEFAULT_MAX_BYTES = 800000"

definition run_git :: "'p os_env \<Rightarrow> ustr list \<Rightarrow> ustr option" where
  "run_git env args = (case git_output env args of None \<Rightarrow> None | Some out \<Rightarrow> Some (strip out))"

definition sha256_text :: "ustr \<Rightarrow> ustr" where
  "sha256_text s = hexdigest (encode_utf8 s)"

text \<open>\<open>path.read_text\<close> raises on anything it cannot open and read.\<close>

definition read_text_file :: "'p os_env \<Rightarrow> 'p \<Rightarrow> exn + ustr" where
  "read_text_file env p = (case fs_node env p of Regular t \<Rightarrow> Inr t | _ \<Rightarrow> Inl OSError)"

text \<open>Truth value of a \<open>str | None\<close>: neither \<open>None\<close> nor the empty string.\<close>

fun truthy :: "ustr option \<Rightarrow> bool" where
  "truthy None = False"
| "truthy (Some s) = (s \<noteq> [])"

subsection \<open>\<open>main\<close>\<close>

record args =
  files :: "ustr list"
  max_files :: int
  max_bytes :: int
  no_git :: bool
  fence :: bool

record 'p outcome =
  exit_code :: int
  stdout :: "ustr list"
  stderr :: "ustr list"
  uncaught :: "exn option"
  trace :: "'p event list"

text \<open>
  \<open>stdout\<close> and \<open>stderr\<close> hold the argument of each \<open>print\<close> of the program, in
  order; the stream itself is each of them followed by a newline. \<open>uncaught\<close> is the
  exception that ended the run, if one did: nothing in the source catches an
  exception of the loop, so the interpreter writes its traceback to the error stream
  and the exit status is 1.
\<close>

definition printed :: "ustr list \<Rightarrow> ustr" where
  "printed ls = concat (map (\<lambda>l. l @ [10]) ls)"

record meta =
  repo_root :: "ustr option"
  repo_name :: "ustr option"
  branch :: "ustr option"
  commit :: "ustr option"

definition git_toplevel :: "ustr list" where
  "git_toplevel = [u ''rev-parse'', u ''--show-toplevel'']"

definition git_branch :: "ustr list" where
  "git_branch = [u ''rev-parse'', u ''--abbrev-ref'', u ''HEAD'']"

definition git_commit :: "ustr list" where
  "git_commit = [u ''rev-parse'', u ''HEAD'']"

text \<open>Lines 57 to 68.\<close>

definition probe :: "'p os_env \<Rightarrow> bool \<Rightarrow> meta \<times> 'p event list" where
  "probe env ng =
     (if \<not> ng then
        (let root = run_git env git_toplevel in
         if truthy root then
           (\<lparr>repo_root = root,
             repo_name = Some (path_name env (Path env (the root))),
             branch = run_git env git_branch,
             commit = run_git env git_commit\<rparr>,
            [GitQuery git_toplevel, GitQuery git_branch, GitQuery git_commit])
         else
           (\<lparr>repo_root = root, repo_name = None, branch = None, commit = None\<rparr>,
            [GitQuery git_toplevel]))
      else (\<lparr>repo_root = None, repo_name = None, branch = None, commit = None\<rparr>, []))"

text \<open>Lines 76 to 81.\<close>

definition resolve_arg :: "'p os_env \<Rightarrow> ustr option \<Rightarrow> ustr \<Rightarrow> 'p \<times> 'p event list" where
  "resolve_arg env root raw =
     (let p = Path env raw in
      if \<not> is_absolute env p then
        (if truthy root then (joinpath env (Path env (the root)) p, [])
         else (joinpath env (cwd env) p, [Getcwd]))
      else (p, []))"

text \<open>Lines 90 to 95; any exception inside the \<open>try\<close> falls back to \<open>str(p)\<close>.\<close>

definition display_path :: "'p os_env \<Rightarrow> ustr option \<Rightarrow> 'p \<Rightarrow> ustr \<times> 'p event list" where
  "display_path env root p =
     (if truthy root then
        (case resolve env p of
           None \<Rightarrow> (path_str env p, [Resolve p])
         | Some rp \<Rightarrow>
             (case resolve env (Path env (the root)) of
                None \<Rightarrow> (path_str env p, [Resolve p, Resolve (Path env (the root))])
              | Some rr \<Rightarrow>
                  (case relative_to env rp rr of
                     None \<Rightarrow> (path_str env p, [Resolve p, Resolve (Path env (the root))])
                   | Some d \<Rightarrow> (path_str env d, [Resolve p, Resolve (Path env (the root))]))))
      else (path_str env p, []))"

definition not_a_file_msg :: "ustr \<Rightarrow> ustr" where
  "not_a_file_msg raw = u ''ERROR: Not a file or missing: '' @ raw"

definition too_large_msg :: "int \<Rightarrow> ustr" where
  "too_large_msg mb =
     u ''ERROR: Context pack too large (>'' @ str_int mb @ u '' bytes). '' @
     u ''Reduce files or raise --max-bytes cautiously.''"

definition too_many_msg :: "nat \<Rightarrow> int \<Rightarrow> ustr" where
  "too_many_msg n mf =
     u ''ERROR: Too many files ('' @ str_int (int n) @ u ''). Max is '' @ str_int mf @ u ''.''"

record 'p loader =
  entries :: "(ustr \<times> ustr \<times> ustr) list"
  total_bytes :: int
  log :: "'p event list"

text \<open>How the loop ends early: the \<open>return 2\<close> after a diagnostic, or an exception
  that leaves \<open>main\<close>.\<close>

datatype halt = Return2 ustr | Uncaught exn

text \<open>One turn of the loop of lines 75 to 106.\<close>

definition load_one ::
  "'p os_env \<Rightarrow> int \<Rightarrow> ustr option \<Rightarrow> ustr \<Rightarrow> 'p loader \<Rightarrow> (halt \<times> 'p event list) + 'p loader" where
  "load_one env mb root raw st =
     (case resolve_arg env root raw of (p, ev1) \<Rightarrow>
      case path_exists env p of
        Inl e \<Rightarrow> Inl (Uncaught e, log st @ ev1 @ [Exists p])
      | Inr there \<Rightarrow>
          if \<not> there then Inl (Return2 (not_a_file_msg raw), log st @ ev1 @ [Exists p])
          else
            (case path_is_file env p of
               Inl e \<Rightarrow> Inl (Uncaught e, log st @ ev1 @ [Exists p, IsFile p])
             | Inr regular \<Rightarrow>
                 if \<not> regular then
                   Inl (Return2 (not_a_file_msg raw), log st @ ev1 @ [Exists p, IsFile p])
                 else
                   (case read_text_file env p of
                      Inl e \<Rightarrow>
                        Inl (Uncaught e, log st @ ev1 @ [Exists p, IsFile p, ReadText p])
                    | Inr content \<Rightarrow>
                        (let digest = sha256_text content
                         in case display_path env root p of (dp, ev2) \<Rightarrow>
                            (let total = total_bytes st + int (length (encode_utf8 content));
                                 tr = log st @ ev1 @ [Exists p, IsFile p, ReadText p] @ ev2
                             in if total > mb then Inl (Return2 (too_large_msg mb), tr)
                                else Inr \<lparr>entries = entries st @ [(dp, digest, content)],
                                          total_bytes = total, log = tr\<rparr>)))))"

fun load_files ::
  "'p os_env \<Rightarrow> int \<Rightarrow> ustr option \<Rightarrow> ustr list \<Rightarrow> 'p loader \<Rightarrow> (halt \<times> 'p event list) + 'p loader" where
  "load_files env mb root [] st = Inr st"
| "load_files env mb root (raw # rest) st =
     (case load_one env mb root raw st of
        Inl e \<Rightarrow> Inl e
      | Inr st' \<Rightarrow> load_files env mb root rest st')"

text \<open>Lines 108 to 137.\<close>

definition opt_line :: "string \<Rightarrow> ustr option \<Rightarrow> ustr list" where
  "opt_line key v = (if truthy v then [u key @ the v] else [])"

definition header :: "meta \<Rightarrow> ustr \<Rightarrow> nat \<Rightarrow> ustr list" where
  "header m now n =
     [u ''BEGIN_CONTEXT_PACK'', u ''generated_utc: '' @ now] @
     opt_line ''repo_root: '' (repo_root m) @
     opt_line ''repo_name: '' (repo_name m) @
     opt_line ''git_branch: '' (branch m) @
     opt_line ''git_commit: '' (commit m) @
     [u ''file_count: '' @ str_int (int n), []]"

fun emit_file :: "ustr \<times> ustr \<times> ustr \<Rightarrow> ustr list" where
  "emit_file (dp, digest, content) =
     [u ''BEGIN_FILE'', u ''path: '' @ dp, u ''sha256: '' @ digest, u ''CONTENT_START'',
      rstrip_nl content, u ''CONTENT_END'', u ''END_FILE'', []]"

definition emit :: "bool \<Rightarrow> meta \<Rightarrow> ustr \<Rightarrow> (ustr \<times> ustr \<times> ustr) list \<Rightarrow> ustr list" where
  "emit fc m now es =
     (if fc then [u ''```text''] else []) @
     header m now (length es) @
     concat (map emit_file es) @
     [u ''END_CONTEXT_PACK''] @
     (if fc then [u ''```''] else [])"

text \<open>What the process shows of a run that ended inside the loop.\<close>

fun halted :: "halt \<times> 'p event list \<Rightarrow> 'p outcome" where
  "halted (Return2 msg, tr) =
     \<lparr>exit_code = 2, stdout = [], stderr = [msg], uncaught = None, trace = tr\<rparr>"
| "halted (Uncaught e, tr) =
     \<lparr>exit_code = 1, stdout = [], stderr = [], uncaught = Some e, trace = tr\<rparr>"

definition main :: "'p os_env \<Rightarrow> args \<Rightarrow> 'p outcome" where
  "main env ns =
     (if int (length (files ns)) > max_files ns then
        \<lparr>exit_code = 2, stdout = [],
         stderr = [too_many_msg (length (files ns)) (max_files ns)],
         uncaught = None, trace = []\<rparr>
      else
        (case probe env (no_git ns) of (m, tr0) \<Rightarrow>
         case load_files env (max_bytes ns) (repo_root m) (files ns)
                \<lparr>entries = [], total_bytes = 0, log = tr0\<rparr> of
           Inl h \<Rightarrow> halted h
         | Inr st \<Rightarrow>
             \<lparr>exit_code = 0, stdout = emit (fence ns) m (utc_now env) (entries st),
              stderr = [], uncaught = None, trace = log st\<rparr>))"

section \<open>Vocabulary of the properties\<close>

text \<open>What one turn of the loop does with an argument, read off \<open>load_one\<close>.\<close>

definition arg_path :: "'p os_env \<Rightarrow> ustr option \<Rightarrow> ustr \<Rightarrow> 'p" where
  "arg_path env root raw = fst (resolve_arg env root raw)"

text \<open>The argument names a regular file and its text is read: both tests answer yes
  and \<open>read_text\<close> returns.\<close>

definition is_regular :: "'p os_env \<Rightarrow> ustr option \<Rightarrow> ustr \<Rightarrow> bool" where
  "is_regular env root raw \<longleftrightarrow>
     path_exists env (arg_path env root raw) = Inr True \<and>
     path_is_file env (arg_path env root raw) = Inr True \<and>
     \<not> isl (read_text_file env (arg_path env root raw))"

text \<open>The test of line 83 answers that the argument is missing or not a file.\<close>

definition refused :: "'p os_env \<Rightarrow> ustr option \<Rightarrow> ustr \<Rightarrow> bool" where
  "refused env root raw \<longleftrightarrow>
     path_exists env (arg_path env root raw) = Inr False \<or>
     path_exists env (arg_path env root raw) = Inr True \<and>
     path_is_file env (arg_path env root raw) = Inr False"

definition content_of :: "'p os_env \<Rightarrow> ustr option \<Rightarrow> ustr \<Rightarrow> ustr" where
  "content_of env root raw =
     (case read_text_file env (arg_path env root raw) of Inr t \<Rightarrow> t | Inl e \<Rightarrow> [])"

text \<open>How a turn ends, and what it logs, on an argument whose text is not read.\<close>

definition early_halt :: "'p os_env \<Rightarrow> ustr option \<Rightarrow> ustr \<Rightarrow> halt \<times> 'p event list" where
  "early_halt env root raw =
     (case resolve_arg env root raw of (p, ev1) \<Rightarrow>
      case path_exists env p of
        Inl e \<Rightarrow> (Uncaught e, ev1 @ [Exists p])
      | Inr there \<Rightarrow>
          if \<not> there then (Return2 (not_a_file_msg raw), ev1 @ [Exists p])
          else
            (case path_is_file env p of
               Inl e \<Rightarrow> (Uncaught e, ev1 @ [Exists p, IsFile p])
             | Inr regular \<Rightarrow>
                 if \<not> regular then (Return2 (not_a_file_msg raw), ev1 @ [Exists p, IsFile p])
                 else (Uncaught OSError, ev1 @ [Exists p, IsFile p, ReadText p])))"

definition size_of :: "'p os_env \<Rightarrow> ustr option \<Rightarrow> ustr \<Rightarrow> int" where
  "size_of env root raw = int (length (encode_utf8 (content_of env root raw)))"

definition file_entry :: "'p os_env \<Rightarrow> ustr option \<Rightarrow> ustr \<Rightarrow> ustr \<times> ustr \<times> ustr" where
  "file_entry env root raw =
     (fst (display_path env root (arg_path env root raw)),
      sha256_text (content_of env root raw),
      content_of env root raw)"

definition file_events :: "'p os_env \<Rightarrow> ustr option \<Rightarrow> ustr \<Rightarrow> 'p event list" where
  "file_events env root raw =
     snd (resolve_arg env root raw) @
     [Exists (arg_path env root raw), IsFile (arg_path env root raw),
      ReadText (arg_path env root raw)] @
     snd (display_path env root (arg_path env root raw))"

text \<open>The paths whose content was read, the \<open>git\<close> queries made, and the calls that
  touch the file system, in the order of the log.\<close>

fun read_paths :: "'p event list \<Rightarrow> 'p list" where
  "read_paths [] = []"
| "read_paths (ReadText p # es) = p # read_paths es"
| "read_paths (e # es) = read_paths es"

fun git_queries :: "'p event list \<Rightarrow> ustr list list" where
  "git_queries [] = []"
| "git_queries (GitQuery a # es) = a # git_queries es"
| "git_queries (e # es) = git_queries es"

text \<open>The state of the loop of \<open>main\<close> after its first \<open>k\<close> turns.\<close>

definition probed_root :: "'p os_env \<Rightarrow> args \<Rightarrow> ustr option" where
  "probed_root env ns = repo_root (fst (probe env (no_git ns)))"

definition loader_after :: "'p os_env \<Rightarrow> args \<Rightarrow> nat \<Rightarrow> (halt \<times> 'p event list) + 'p loader" where
  "loader_after env ns k =
     load_files env (max_bytes ns) (probed_root env ns) (take k (files ns))
       \<lparr>entries = [], total_bytes = 0, log = snd (probe env (no_git ns))\<rparr>"

definition stored_bytes :: "(ustr \<times> ustr \<times> ustr) list \<Rightarrow> int" where
  "stored_bytes es = sum_list (map (\<lambda>e. int (length (encode_utf8 (snd (snd e))))) es)"

subsection \<open>A small concrete setting\<close>

text \<open>
  Paths are their own strings, joined with a slash; a checkout at \<open>/repo\<close> on branch
  \<open>main\<close> holds \<open>a.txt\<close>, \<open>b.txt\<close>, \<open>c.txt\<close>, a directory \<open>docs\<close>, a file
  \<open>locked.txt\<close> that may not be read, and \<open>long\<close> stands for a name the system
  refuses to look up.
\<close>

definition demo_git :: "ustr list \<Rightarrow> ustr option" where
  "demo_git a =
     (if a = git_toplevel then Some (u ''/repo'' @ [10])
      else if a = git_branch then Some (u ''main'' @ [10])
      else if a = git_commit then Some (u ''0a1b2c'' @ [10])
      else None)"

definition demo_fs :: "ustr \<Rightarrow> fsnode" where
  "demo_fs p =
     (if p = u ''/repo/a.txt'' then Regular (u ''hi'')
      else if p = u ''/repo/b.txt'' then Regular (u ''bye'' @ [10])
      else if p = u ''/repo/c.txt'' then Regular (u ''hi'' @ [10, 10])
      else if p = u ''/repo/docs'' then NonRegular
      else if p = u ''/repo/locked.txt'' then Unreadable
      else if p = u ''/repo/long'' then StatError
      else Absent)"

definition demo_relative_to :: "ustr \<Rightarrow> ustr \<Rightarrow> ustr option" where
  "demo_relative_to p r =
     (if take (length r + 1) p = r @ [47] then Some (drop (length r + 1) p) else None)"

definition demo_env :: "ustr os_env" where
  "demo_env =
     \<lparr>git_output = demo_git,
      utc_now = u ''2024-05-01T12:00:00+00:00'',
      Path = (\<lambda>s. s),
      is_absolute = (\<lambda>p. take 1 p = [47]),
      joinpath = (\<lambda>a b. a @ [47] @ b),
      cwd = u ''/repo'',
      fs_node = demo_fs,
      resolve = Some,
      relative_to = demo_relative_to,
      path_str = (\<lambda>p. p),
      path_name = (\<lambda>p. rev (takeWhile (\<lambda>c. c \<noteq> 47) (rev p)))\<rparr>"

definition demo_args :: "ustr list \<Rightarrow> args" where
  "demo_args fs =
     \<lparr>files = fs, max_files = DEFAULT_MAX_FILES, max_bytes = DEFAULT_MAX_BYTES,
      no_git = False, fence = False\<rparr>"

definition demo_two :: args where
  "demo_two = demo_args [u ''a.txt'', u ''b.txt'']"

definition demo_negative :: args where
  "demo_negative = (demo_args [u ''a.txt''])\<lparr>max_bytes := - 1\<rparr>"

definition demo_tight :: args where
  "demo_tight = (demo_args [u ''a.txt'', u ''b.txt'', u ''c.txt''])\<lparr>max_bytes := 5\<rparr>"

definition demo_two_loaded :: "ustr loader" where
  "demo_two_loaded =
     \<lparr>entries = [(u ''a.txt'', sha256_text (u ''hi''), u ''hi''),
                 (u ''b.txt'', sha256_text (u ''bye'' @ [10]), u ''bye'' @ [10])],
      total_bytes = 6,
      log = [GitQuery git_toplevel, GitQuery git_branch, GitQuery git_commit,
             Exists (u ''/repo/a.txt''), IsFile (u ''/repo/a.txt''), ReadText (u ''/repo/a.txt''),
             Resolve (u ''/repo/a.txt''), Resolve (u ''/repo''),
             Exists (u ''/repo/b.txt''), IsFile (u ''/repo/b.txt''), ReadText (u ''/repo/b.txt''),
             Resolve (u ''/repo/b.txt''), Resolve (u ''/repo'')]\<rparr>"

definition demo_bad_last :: args where
  "demo_bad_last = demo_args [u ''a.txt'', u ''docs'']"

definition demo_two_missing :: args where
  "demo_two_missing = demo_args [u ''x.txt'', u ''y.txt'']"




definition demo_fenced :: args where
  "demo_fenced = demo_two\<lparr>fence := True\<rparr>"





text \<open>The exit code and the diagnostic of a run that ended inside the loop.\<close>

fun halt_code :: "halt \<Rightarrow> int" where
  "halt_code (Return2 msg) = 2"
| "halt_code (Uncaught e) = 1"

fun halt_stderr :: "halt \<Rightarrow> ustr list" where
  "halt_stderr (Return2 msg) = [msg]"
| "halt_stderr (Uncaught e) = []"

text \<open>What of the loop's result reaches the exit code and the two streams.\<close>

definition verdict :: "(halt \<times> 'p event list) + 'p loader \<Rightarrow> halt + (ustr \<times> ustr \<times> ustr) list" where
  "verdict r = (case r of Inl (h, tr) \<Rightarrow> Inl h | Inr st \<Rightarrow> Inr (entries st))"

definition result_log :: "(halt \<times> 'p event list) + 'p loader \<Rightarrow> 'p event list" where
  "result_log r = (case r of Inl (h, tr) \<Rightarrow> tr | Inr st \<Rightarrow> log st)"

text \<open>The concrete setting with no \<open>git\<close> executable, and with one that prints an
  empty line for the root.\<close>

definition demo_nogit_env :: "ustr os_env" where
  "demo_nogit_env = demo_env\<lparr>git_output := (\<lambda>a. None)\<rparr>"

definition demo_bare_env :: "ustr os_env" where
  "demo_bare_env = demo_env\<lparr>git_output := (\<lambda>a. if a = git_toplevel then Some [10] else None)\<rparr>"

section \<open>Properties\<close>

subsection \<open>Too many files\<close>

text \<open>
  C7. When the number of positional file arguments exceeds the configured maximum
  file count, the program exits with code 2 with an empty log (no subprocess, no
  file-system call), prints nothing to standard output, and the one line on the
  error stream carries the file count and the limit.
\<close>

theorem too_many_files_rejected:
  "int (length (files ns)) > max_files ns \<Longrightarrow>
     exit_code (main env ns) = 2 \<and>
     trace (main env ns) = [] \<and>
     stdout (main env ns) = [] \<and>
     stderr (main env ns) =
       [u ''ERROR: Too many files ('' @ str_int (int (length (files ns))) @
        u ''). Max is '' @ str_int (max_files ns) @ u ''.'']"
  by (simp add: main_def too_many_msg_def)

theorem too_many_files_rejected_witness:
  "int (length (files ((demo_args [u ''a.txt'', u ''b.txt'', u ''c.txt''])\<lparr>max_files := 2\<rparr>))) > 2 \<and>
   exit_code (main demo_env ((demo_args [u ''a.txt'', u ''b.txt'', u ''c.txt''])\<lparr>max_files := 2\<rparr>)) = 2 \<and>
   trace (main demo_env ((demo_args [u ''a.txt'', u ''b.txt'', u ''c.txt''])\<lparr>max_files := 2\<rparr>)) = [] \<and>
   stdout (main demo_env ((demo_args [u ''a.txt'', u ''b.txt'', u ''c.txt''])\<lparr>max_files := 2\<rparr>)) = [] \<and>
   stderr (main demo_env ((demo_args [u ''a.txt'', u ''b.txt'', u ''c.txt''])\<lparr>max_files := 2\<rparr>)) =
     [u ''ERROR: Too many files (3). Max is 2.'']"
  using too_many_files_rejected
    [of "(demo_args [u ''a.txt'', u ''b.txt'', u ''c.txt''])\<lparr>max_files := 2\<rparr>" demo_env]
  by (simp add: demo_args_def str_int_def digits.simps u_def)

subsection \<open>The loading loop\<close>

lemma size_of_nonneg: "0 \<le> size_of env root raw"
  by (simp add: size_of_def)

lemmas file_system_calls = path_exists_def path_is_file_def read_text_file_def

lemma load_one_eq:
  "load_one env mb root raw st =
     (if \<not> is_regular env root raw then
        Inl (fst (early_halt env root raw), log st @ snd (early_halt env root raw))
      else if total_bytes st + size_of env root raw > mb then
        Inl (Return2 (too_large_msg mb), log st @ file_events env root raw)
      else
        Inr \<lparr>entries = entries st @ [file_entry env root raw],
             total_bytes = total_bytes st + size_of env root raw,
             log = log st @ file_events env root raw\<rparr>)"
proof (cases "resolve_arg env root raw")
  case (Pair p ev1)
  then show ?thesis
    by (cases "fs_node env p")
       (simp_all add: load_one_def early_halt_def is_regular_def arg_path_def size_of_def
          content_of_def file_entry_def file_events_def file_system_calls Let_def
          split: prod.splits)
qed

lemma refused_not_regular: "refused env root raw \<Longrightarrow> \<not> is_regular env root raw"
  by (auto simp: refused_def is_regular_def)

lemma refused_early_halt:
  "refused env root raw \<Longrightarrow> fst (early_halt env root raw) = Return2 (not_a_file_msg raw)"
proof (cases "resolve_arg env root raw")
  case (Pair p ev1)
  assume "refused env root raw"
  with Pair show ?thesis
    by (cases "fs_node env p")
       (simp_all add: refused_def early_halt_def arg_path_def file_system_calls)
qed

lemma early_halt_Return2:
  "fst (early_halt env root raw) = Return2 msg \<Longrightarrow> msg = not_a_file_msg raw"
proof (cases "resolve_arg env root raw")
  case (Pair p ev1)
  assume "fst (early_halt env root raw) = Return2 msg"
  with Pair show ?thesis
    by (cases "fs_node env p") (simp_all add: early_halt_def file_system_calls)
qed

lemma halted_silent:
  "stdout (halted h) = []" "exit_code (halted h) = 2 \<or> exit_code (halted h) = 1"
  by (cases h rule: halted.cases, simp_all)+

lemma halted_trace: "trace (halted (h, tr)) = tr"
  by (cases h) simp_all

lemma load_files_append:
  "load_files env mb root (xs @ ys) st =
     (case load_files env mb root xs st of
        Inl e \<Rightarrow> Inl e
      | Inr st' \<Rightarrow> load_files env mb root ys st')"
  by (induction xs arbitrary: st) (simp_all split: sum.splits)

lemma load_files_Inr:
  "load_files env mb root fs st = Inr st' \<Longrightarrow>
     entries st' = entries st @ map (file_entry env root) fs \<and>
     total_bytes st' = total_bytes st + sum_list (map (size_of env root) fs) \<and>
     log st' = log st @ concat (map (file_events env root) fs) \<and>
     (\<forall>raw \<in> set fs. is_regular env root raw) \<and>
     (fs \<noteq> [] \<longrightarrow> total_bytes st' \<le> mb)"
proof (induction fs arbitrary: st)
  case Nil
  then show ?case by simp
next
  case (Cons raw rest)
  from Cons.prems obtain mid where one: "load_one env mb root raw st = Inr mid"
    and more: "load_files env mb root rest mid = Inr st'"
    by (auto split: sum.splits)
  from one have reg: "is_regular env root raw"
    and fits: "total_bytes st + size_of env root raw \<le> mb"
    and mid: "mid = \<lparr>entries = entries st @ [file_entry env root raw],
                     total_bytes = total_bytes st + size_of env root raw,
                     log = log st @ file_events env root raw\<rparr>"
    by (auto simp: load_one_eq split: if_splits)
  note ih = Cons.IH [OF more]
  have "total_bytes st' \<le> mb"
  proof (cases rest)
    case Nil
    with more have "st' = mid" by simp
    with mid fits show ?thesis by simp
  next
    case (Cons a as)
    with ih show ?thesis by simp
  qed
  with ih reg mid show ?case by simp
qed

lemma load_files_Inl_regular:
  "\<forall>raw \<in> set fs. is_regular env root raw \<Longrightarrow>
   total_bytes st + sum_list (map (size_of env root) fs) \<le> mb \<Longrightarrow>
   \<exists>st'. load_files env mb root fs st = Inr st'"
proof (induction fs arbitrary: st)
  case Nil
  then show ?case by simp
next
  case (Cons raw rest)
  have "0 \<le> sum_list (map (size_of env root) rest)"
    by (rule sum_list_nonneg) (auto simp: size_of_nonneg)
  with Cons.prems(2) have fits: "total_bytes st + size_of env root raw \<le> mb"
    by simp
  from Cons.prems show ?case
    using fits by (simp add: load_one_eq Cons.IH add.assoc)
qed

lemma main_within_limit:
  "\<not> int (length (files ns)) > max_files ns \<Longrightarrow>
   main env ns =
     (case loader_after env ns (length (files ns)) of
        Inl h \<Rightarrow> halted h
      | Inr st \<Rightarrow>
          \<lparr>exit_code = 0,
           stdout = emit (fence ns) (fst (probe env (no_git ns))) (utc_now env) (entries st),
           stderr = [], uncaught = None, trace = log st\<rparr>)"
  by (cases "probe env (no_git ns)")
    (auto simp: main_def loader_after_def probed_root_def split: sum.splits)

lemma main_success:
  assumes "exit_code (main env ns) = 0"
  shows "\<not> int (length (files ns)) > max_files ns"
    and "\<exists>st. loader_after env ns (length (files ns)) = Inr st \<and>
           stdout (main env ns) =
             emit (fence ns) (fst (probe env (no_git ns))) (utc_now env) (entries st) \<and>
           stderr (main env ns) = [] \<and> trace (main env ns) = log st"
proof -
  show lim: "\<not> int (length (files ns)) > max_files ns"
    using assms by (auto simp: main_def)
  show "\<exists>st. loader_after env ns (length (files ns)) = Inr st \<and>
           stdout (main env ns) =
             emit (fence ns) (fst (probe env (no_git ns))) (utc_now env) (entries st) \<and>
           stderr (main env ns) = [] \<and> trace (main env ns) = log st"
  proof (cases "loader_after env ns (length (files ns))")
    case (Inl h)
    with assms halted_silent(2) [of h] show ?thesis
      by (simp add: main_within_limit [OF lim])
  next
    case (Inr st)
    then show ?thesis by (simp add: main_within_limit [OF lim])
  qed
qed

lemma main_failure_silent:
  "exit_code (main env ns) \<noteq> 0 \<Longrightarrow>
     (exit_code (main env ns) = 2 \<or> exit_code (main env ns) = 1) \<and> stdout (main env ns) = []"
proof (cases "int (length (files ns)) > max_files ns")
  case True
  then show ?thesis by (simp add: main_def)
next
  case False
  assume bad: "exit_code (main env ns) \<noteq> 0"
  show ?thesis
  proof (cases "loader_after env ns (length (files ns))")
    case (Inl h)
    with halted_silent [of h] show ?thesis
      by (simp add: main_within_limit [OF False])
  next
    case (Inr st)
    with bad show ?thesis by (simp add: main_within_limit [OF False])
  qed
qed

lemma loader_after_Inr:
  assumes "loader_after env ns k = Inr st"
  shows "entries st = map (file_entry env (probed_root env ns)) (take k (files ns))"
    and "total_bytes st = sum_list (map (size_of env (probed_root env ns)) (take k (files ns)))"
    and "log st = snd (probe env (no_git ns)) @
           concat (map (file_events env (probed_root env ns)) (take k (files ns)))"
    and "\<forall>raw \<in> set (take k (files ns)). is_regular env (probed_root env ns) raw"
    and "take k (files ns) \<noteq> [] \<longrightarrow> total_bytes st \<le> max_bytes ns"
proof -
  note h = load_files_Inr [OF assms [unfolded loader_after_def]]
  from h show "entries st = map (file_entry env (probed_root env ns)) (take k (files ns))"
    by simp
  from h show "total_bytes st =
      sum_list (map (size_of env (probed_root env ns)) (take k (files ns)))"
    by simp
  from h show "log st = snd (probe env (no_git ns)) @
      concat (map (file_events env (probed_root env ns)) (take k (files ns)))"
    by simp
  from h show "\<forall>raw \<in> set (take k (files ns)). is_regular env (probed_root env ns) raw"
    by blast
  from h show "take k (files ns) \<noteq> [] \<longrightarrow> total_bytes st \<le> max_bytes ns"
    by blast
qed

lemma loader_after_continues:
  "loader_after env ns (length (files ns)) =
     (case loader_after env ns k of
        Inl e \<Rightarrow> Inl e
      | Inr st \<Rightarrow> load_files env (max_bytes ns) (probed_root env ns) (drop k (files ns)) st)"
proof -
  have "take (length (files ns)) (files ns) = take k (files ns) @ drop k (files ns)"
    by simp
  then show ?thesis
    unfolding loader_after_def by (simp only: load_files_append)
qed

lemma stored_bytes_entries:
  "stored_bytes (map (file_entry env root) fs) = sum_list (map (size_of env root) fs)"
  by (induction fs) (simp_all add: stored_bytes_def file_entry_def size_of_def)

lemma read_paths_append: "read_paths (xs @ ys) = read_paths xs @ read_paths ys"
  by (induction xs rule: read_paths.induct) simp_all

lemma read_paths_probe: "read_paths (snd (probe env ng)) = []"
  by (simp add: probe_def Let_def)

lemma read_paths_resolve_arg: "read_paths (snd (resolve_arg env root raw)) = []"
  by (simp add: resolve_arg_def Let_def)

lemma read_paths_display_path: "read_paths (snd (display_path env root p)) = []"
  by (simp add: display_path_def split: option.splits)

lemma read_paths_file_events:
  "read_paths (file_events env root raw) = [arg_path env root raw]"
  by (simp add: file_events_def read_paths_append read_paths_resolve_arg read_paths_display_path)

lemma read_paths_concat_file_events:
  "read_paths (concat (map (file_events env root) fs)) = map (arg_path env root) fs"
  by (induction fs) (simp_all add: read_paths_append read_paths_file_events)

lemma loader_after_accepts:
  assumes reg: "\<forall>j < k. is_regular env (probed_root env ns) (files ns ! j)"
    and k: "k \<le> length (files ns)"
    and fits: "k = 0 \<or>
      sum_list (map (size_of env (probed_root env ns)) (take k (files ns))) \<le> max_bytes ns"
  shows "\<exists>st. loader_after env ns k = Inr st"
proof (cases "k = 0")
  case True
  then show ?thesis by (simp add: loader_after_def)
next
  case False
  with fits have le: "sum_list (map (size_of env (probed_root env ns)) (take k (files ns)))
      \<le> max_bytes ns" by simp
  have "\<forall>raw \<in> set (take k (files ns)). is_regular env (probed_root env ns) raw"
    using reg k by (auto simp: in_set_conv_nth)
  from load_files_Inl_regular [OF this, of "\<lparr>entries = [], total_bytes = 0,
      log = snd (probe env (no_git ns))\<rparr>" "max_bytes ns"] le
  show ?thesis by (simp add: loader_after_def)
qed

lemma loader_stops_at:
  assumes k: "k < length (files ns)"
    and st: "loader_after env ns k = Inr st"
    and one: "load_one env (max_bytes ns) (probed_root env ns) (files ns ! k) st = Inl e"
  shows "loader_after env ns (length (files ns)) = Inl e"
proof -
  from k have "drop k (files ns) = files ns ! k # drop (Suc k) (files ns)"
    by (simp add: Cons_nth_drop_Suc)
  with loader_after_continues [of env ns k] st one show ?thesis by simp
qed

subsection \<open>The concrete setting, evaluated\<close>

lemmas demo_defs = demo_env_def demo_git_def demo_fs_def demo_relative_to_def demo_args_def
  git_toplevel_def git_branch_def git_commit_def u_def DEFAULT_MAX_FILES_def DEFAULT_MAX_BYTES_def

lemma demo_probe:
  "probe demo_env False =
     (\<lparr>repo_root = Some (u ''/repo''), repo_name = Some (u ''repo''),
       branch = Some (u ''main''), commit = Some (u ''0a1b2c'')\<rparr>,
      [GitQuery git_toplevel, GitQuery git_branch, GitQuery git_commit])"
  by (simp add: probe_def run_git_def strip_def isspace_def demo_defs Let_def)

lemma demo_root: "probed_root demo_env (demo_args fs) = Some (u ''/repo'')"
  by (simp add: probed_root_def demo_probe) (simp add: demo_args_def demo_probe)

lemma demo_arg_path:
  "arg_path demo_env (Some (u ''/repo'')) raw =
     (if take 1 raw = [47] then raw else u ''/repo/'' @ raw)"
  by (simp add: arg_path_def resolve_arg_def demo_defs Let_def)

lemma demo_regular:
  "is_regular demo_env (Some (u ''/repo'')) (u ''a.txt'')"
  "is_regular demo_env (Some (u ''/repo'')) (u ''b.txt'')"
  "is_regular demo_env (Some (u ''/repo'')) (u ''c.txt'')"
  "\<not> is_regular demo_env (Some (u ''/repo'')) (u ''docs'')"
  "\<not> is_regular demo_env (Some (u ''/repo'')) (u ''x.txt'')"
  "\<not> is_regular demo_env (Some (u ''/repo'')) (u ''y.txt'')"
  by (simp_all add: is_regular_def demo_arg_path file_system_calls)
     (simp_all add: demo_defs)

lemma demo_refused:
  "refused demo_env (Some (u ''/repo'')) (u ''docs'')"
  "refused demo_env (Some (u ''/repo'')) (u ''x.txt'')"
  "refused demo_env (Some (u ''/repo'')) (u ''y.txt'')"
  by (simp_all add: refused_def demo_arg_path file_system_calls)
     (simp_all add: demo_defs)

lemma demo_content:
  "content_of demo_env (Some (u ''/repo'')) (u ''a.txt'') = u ''hi''"
  "content_of demo_env (Some (u ''/repo'')) (u ''b.txt'') = u ''bye'' @ [10]"
  "content_of demo_env (Some (u ''/repo'')) (u ''c.txt'') = u ''hi'' @ [10, 10]"
  by (simp_all add: content_of_def demo_arg_path file_system_calls)
     (simp_all add: demo_defs)

lemma demo_size:
  "size_of demo_env (Some (u ''/repo'')) (u ''a.txt'') = 2"
  "size_of demo_env (Some (u ''/repo'')) (u ''b.txt'') = 4"
  "size_of demo_env (Some (u ''/repo'')) (u ''c.txt'') = 4"
  by (simp_all add: size_of_def demo_content)
     (simp_all add: u_def encode_utf8_def encode_cp_def)

lemma demo_display:
  "fst (display_path demo_env (Some (u ''/repo'')) (u ''/repo/'' @ raw)) = raw"
  by (simp add: display_path_def demo_defs)

lemma demo_file_entry:
  "file_entry demo_env (Some (u ''/repo'')) (u ''a.txt'') =
     (u ''a.txt'', sha256_text (u ''hi''), u ''hi'')"
  "file_entry demo_env (Some (u ''/repo'')) (u ''b.txt'') =
     (u ''b.txt'', sha256_text (u ''bye'' @ [10]), u ''bye'' @ [10])"
  "file_entry demo_env (Some (u ''/repo'')) (u ''c.txt'') =
     (u ''c.txt'', sha256_text (u ''hi'' @ [10, 10]), u ''hi'' @ [10, 10])"
  by (simp_all add: file_entry_def demo_content demo_arg_path)
     (simp_all add: u_def demo_display [unfolded u_def, simplified])

lemma demo_file_events:
  "file_events demo_env (Some (u ''/repo'')) (u ''a.txt'') =
     [Exists (u ''/repo/a.txt''), IsFile (u ''/repo/a.txt''), ReadText (u ''/repo/a.txt''),
      Resolve (u ''/repo/a.txt''), Resolve (u ''/repo'')]"
  "file_events demo_env (Some (u ''/repo'')) (u ''b.txt'') =
     [Exists (u ''/repo/b.txt''), IsFile (u ''/repo/b.txt''), ReadText (u ''/repo/b.txt''),
      Resolve (u ''/repo/b.txt''), Resolve (u ''/repo'')]"
  by (simp_all add: file_events_def demo_arg_path)
     (simp_all add: resolve_arg_def display_path_def demo_defs Let_def)

lemma demo_two_run: "loader_after demo_env demo_two 2 = Inr demo_two_loaded"
  by (simp add: loader_after_def demo_two_def demo_root)
     (simp add: demo_args_def demo_probe load_one_eq demo_regular demo_size demo_file_entry
        demo_file_events demo_two_loaded_def DEFAULT_MAX_BYTES_def)

lemma demo_two_len: "length (files demo_two) = 2"
  by (simp add: demo_two_def demo_args_def)

lemma demo_two_lim: "\<not> int (length (files demo_two)) > max_files demo_two"
  by (simp add: demo_two_def demo_args_def DEFAULT_MAX_FILES_def)

lemma demo_two_main:
  "main demo_env demo_two =
     \<lparr>exit_code = 0,
      stdout = emit (fence demo_two) (fst (probe demo_env (no_git demo_two))) (utc_now demo_env)
                 (entries demo_two_loaded),
      stderr = [], uncaught = None, trace = log demo_two_loaded\<rparr>"
  using main_within_limit [OF demo_two_lim, of demo_env, unfolded demo_two_len demo_two_run]
  by simp

lemma demo_two_ok: "exit_code (main demo_env demo_two) = 0"
  by (simp add: demo_two_main)

lemma demo_tight_facts:
  "\<not> int (length (files demo_tight)) > max_files demo_tight"
  "length (files demo_tight) = 3"
  "files demo_tight = [u ''a.txt'', u ''b.txt'', u ''c.txt'']"
  "max_bytes demo_tight = 5"
  "probed_root demo_env demo_tight = Some (u ''/repo'')"
  by (simp_all add: demo_tight_def probed_root_def)
     (simp_all add: demo_args_def DEFAULT_MAX_FILES_def demo_probe)

lemma demo_bad_last_facts:
  "\<not> int (length (files demo_bad_last)) > max_files demo_bad_last"
  "length (files demo_bad_last) = 2"
  "files demo_bad_last = [u ''a.txt'', u ''docs'']"
  "max_bytes demo_bad_last = 800000"
  "probed_root demo_env demo_bad_last = Some (u ''/repo'')"
  by (simp_all add: demo_bad_last_def probed_root_def)
     (simp_all add: demo_args_def DEFAULT_MAX_FILES_def DEFAULT_MAX_BYTES_def demo_probe)

lemma demo_two_missing_facts:
  "\<not> int (length (files demo_two_missing)) > max_files demo_two_missing"
  "length (files demo_two_missing) = 2"
  "files demo_two_missing = [u ''x.txt'', u ''y.txt'']"
  "probed_root demo_env demo_two_missing = Some (u ''/repo'')"
  by (simp_all add: demo_two_missing_def probed_root_def)
     (simp_all add: demo_args_def DEFAULT_MAX_FILES_def DEFAULT_MAX_BYTES_def demo_probe)

lemma demo_two_missing_stderr:
  "stderr (main demo_env demo_two_missing) = [not_a_file_msg (u ''x.txt'')]"
proof -
  have k: "0 < length (files demo_two_missing)"
    by (simp add: demo_two_missing_facts)
  have st: "loader_after demo_env demo_two_missing 0 =
      Inr \<lparr>entries = [], total_bytes = 0, log = snd (probe demo_env (no_git demo_two_missing))\<rparr>"
    by (simp add: loader_after_def)
  obtain tr where one: "load_one demo_env (max_bytes demo_two_missing)
      (probed_root demo_env demo_two_missing) (files demo_two_missing ! 0)
      \<lparr>entries = [], total_bytes = 0, log = snd (probe demo_env (no_git demo_two_missing))\<rparr>
      = Inl (Return2 (not_a_file_msg (u ''x.txt'')), tr)"
    by (simp add: load_one_eq demo_two_missing_facts demo_regular
        refused_early_halt [OF demo_refused(2)])
  from loader_stops_at [OF k st one]
    main_within_limit [OF demo_two_missing_facts(1), of demo_env]
  show ?thesis by simp
qed

subsection \<open>What the loop keeps true\<close>

text \<open>
  C4, as the code has it. After any number \<open>k\<close> of accepted input paths the loop holds exactly \<open>k\<close>
  records, one per path in input order (duplicates stay), its running total is the
  encoded size of the stored content, and that size is within the configured maximum
  at every point where a file is stored, and at every point at all when the maximum
  is not negative. A successful run passes through such a state for
  every \<open>k\<close> and prints a \<open>file_count:\<close> line with the number of input paths.
\<close>

theorem loader_invariant:
  "(k \<le> length (files ns) \<longrightarrow> loader_after env ns k = Inr st \<longrightarrow>
      length (entries st) = k \<and>
      entries st = map (file_entry env (probed_root env ns)) (take k (files ns)) \<and>
      map (snd \<circ> snd) (entries st) = map (content_of env (probed_root env ns)) (take k (files ns)) \<and>
      total_bytes st = stored_bytes (entries st) \<and>
      (0 < k \<or> 0 \<le> max_bytes ns \<longrightarrow> stored_bytes (entries st) \<le> max_bytes ns)) \<and>
   (exit_code (main env ns) = 0 \<longrightarrow>
      (\<forall>j \<le> length (files ns). \<exists>sj. loader_after env ns j = Inr sj) \<and>
      (\<exists>es. length es = length (files ns) \<and>
         stdout (main env ns) =
           (if fence ns then [u ''```text''] else []) @
           header (fst (probe env (no_git ns))) (utc_now env) (length (files ns)) @
           concat (map emit_file es) @ [u ''END_CONTEXT_PACK''] @
           (if fence ns then [u ''```''] else [])) \<and>
      u ''file_count: '' @ str_int (int (length (files ns))) \<in> set (stdout (main env ns)))"
proof (intro conjI impI)
  assume k: "k \<le> length (files ns)" and st: "loader_after env ns k = Inr st"
  note facts = loader_after_Inr [OF st]
  show ent: "entries st = map (file_entry env (probed_root env ns)) (take k (files ns))"
    by (rule facts(1))
  from ent k show "length (entries st) = k" by simp
  from ent show "map (snd \<circ> snd) (entries st) =
      map (content_of env (probed_root env ns)) (take k (files ns))"
    by (simp add: file_entry_def comp_def)
  show tot: "total_bytes st = stored_bytes (entries st)"
    by (simp add: ent stored_bytes_entries facts(2))
  show "stored_bytes (entries st) \<le> max_bytes ns" if "0 < k \<or> 0 \<le> max_bytes ns"
  proof (cases "0 < k")
    case True
    with k have "take k (files ns) \<noteq> []" by auto
    with facts(5) tot show ?thesis by simp
  next
    case False
    with that ent show ?thesis by (simp add: stored_bytes_def)
  qed
next
  assume ok: "exit_code (main env ns) = 0"
  from main_success(2) [OF ok] obtain st where
    st: "loader_after env ns (length (files ns)) = Inr st" and
    out: "stdout (main env ns) =
      emit (fence ns) (fst (probe env (no_git ns))) (utc_now env) (entries st)"
    by blast
  show "\<forall>j \<le> length (files ns). \<exists>sj. loader_after env ns j = Inr sj"
  proof (intro allI impI)
    fix j
    from st loader_after_continues [of env ns j]
    show "\<exists>sj. loader_after env ns j = Inr sj"
      by (cases "loader_after env ns j") auto
  qed
  have len: "length (entries st) = length (files ns)"
    by (simp add: loader_after_Inr(1) [OF st])
  show "\<exists>es. length es = length (files ns) \<and>
         stdout (main env ns) =
           (if fence ns then [u ''```text''] else []) @
           header (fst (probe env (no_git ns))) (utc_now env) (length (files ns)) @
           concat (map emit_file es) @ [u ''END_CONTEXT_PACK''] @
           (if fence ns then [u ''```''] else [])"
    using len out by (intro exI [of _ "entries st"]) (simp add: emit_def)
  show "u ''file_count: '' @ str_int (int (length (files ns))) \<in> set (stdout (main env ns))"
    using len out by (simp add: emit_def header_def)
qed

theorem loader_invariant_witness:
  "length (entries demo_two_loaded) = 2 \<and>
   total_bytes demo_two_loaded = stored_bytes (entries demo_two_loaded) \<and>
   stored_bytes (entries demo_two_loaded) \<le> max_bytes demo_two \<and>
   u ''file_count: '' @ str_int (int (length (files demo_two))) \<in> set (stdout (main demo_env demo_two))"
proof -
  have k: "2 \<le> length (files demo_two)"
    by (simp add: demo_two_len)
  note inv = loader_invariant [of 2 demo_two demo_env demo_two_loaded]
  note during = inv [THEN conjunct1, rule_format, OF k demo_two_run]
  note after = inv [THEN conjunct2, rule_format, OF demo_two_ok]
  have "length (entries demo_two_loaded) = 2"
    by (rule during [THEN conjunct1])
  moreover have "total_bytes demo_two_loaded = stored_bytes (entries demo_two_loaded)"
    by (rule during [THEN conjunct2, THEN conjunct2, THEN conjunct2, THEN conjunct1])
  moreover have "stored_bytes (entries demo_two_loaded) \<le> max_bytes demo_two"
    using during [THEN conjunct2, THEN conjunct2, THEN conjunct2, THEN conjunct2] by simp
  moreover have "u ''file_count: '' @ str_int (int (length (files demo_two)))
      \<in> set (stdout (main demo_env demo_two))"
    by (rule after [THEN conjunct2, THEN conjunct2])
  ultimately show ?thesis by (intro conjI)
qed

text \<open>
  Without that proviso the claim does not hold: \<open>--max-bytes -1\<close> is an integer the
  parser accepts, and before the first turn of the loop the stored content (nothing,
  0 bytes) already exceeds it; the run then stops at the first file.
\<close>

theorem loader_bound_counterexample:
  "max_bytes demo_negative = - 1 \<and>
   loader_after demo_env demo_negative 0 =
     Inr \<lparr>entries = [], total_bytes = 0,
          log = [GitQuery git_toplevel, GitQuery git_branch, GitQuery git_commit]\<rparr> \<and>
   \<not> stored_bytes [] \<le> max_bytes demo_negative \<and>
   exit_code (main demo_env demo_negative) = 2 \<and>
   stdout (main demo_env demo_negative) = []"
proof -
  have mb: "max_bytes demo_negative = - 1" and ng: "no_git demo_negative = False"
    and fs: "files demo_negative = [u ''a.txt'']"
    and lim: "\<not> int (length (files demo_negative)) > max_files demo_negative"
    by (simp_all add: demo_negative_def demo_args_def DEFAULT_MAX_FILES_def)
  have root: "probed_root demo_env demo_negative = Some (u ''/repo'')"
    by (simp add: probed_root_def ng demo_probe)
  have start: "loader_after demo_env demo_negative 0 =
      Inr \<lparr>entries = [], total_bytes = 0,
           log = [GitQuery git_toplevel, GitQuery git_branch, GitQuery git_commit]\<rparr>"
    by (simp add: loader_after_def ng demo_probe)
  obtain tr where "loader_after demo_env demo_negative (length (files demo_negative)) =
      Inl (Return2 (too_large_msg (- 1)), tr)"
    by (simp add: loader_after_def fs mb ng root demo_probe load_one_eq demo_regular demo_size)
  with main_within_limit [OF lim, of demo_env]
  have "exit_code (main demo_env demo_negative) = 2 \<and> stdout (main demo_env demo_negative) = []"
    by simp
  with mb start show ?thesis by (simp add: stored_bytes_def)
qed

subsection \<open>The byte budget\<close>

text \<open>
  C2. The budget is enforced file by file: when the files up to index \<open>k\<close> are
  regular, the encoded sizes of the first \<open>k\<close> fit, and adding the size of file \<open>k\<close>
  exceeds the maximum, the run ends with exit code 2, the budget diagnostic on the
  error stream and nothing on standard output, and the files read are exactly the
  first \<open>k + 1\<close>: none after the one that tripped the limit.
\<close>

theorem byte_budget_enforced:
  assumes lim: "\<not> int (length (files ns)) > max_files ns"
    and k: "k < length (files ns)"
    and reg: "\<forall>j \<le> k. is_regular env (probed_root env ns) (files ns ! j)"
    and before: "k = 0 \<or>
      sum_list (map (size_of env (probed_root env ns)) (take k (files ns))) \<le> max_bytes ns"
    and trip: "sum_list (map (size_of env (probed_root env ns)) (take (Suc k) (files ns)))
      > max_bytes ns"
  shows "exit_code (main env ns) = 2 \<and>
         stdout (main env ns) = [] \<and>
         stderr (main env ns) = [too_large_msg (max_bytes ns)] \<and>
         read_paths (trace (main env ns)) =
           map (arg_path env (probed_root env ns)) (take (Suc k) (files ns))"
proof -
  let ?root = "probed_root env ns"
  from reg have "\<forall>j < k. is_regular env ?root (files ns ! j)" by simp
  from loader_after_accepts [OF this _ before] k
  obtain st where st: "loader_after env ns k = Inr st" by auto
  note facts = loader_after_Inr [OF st]
  from k have tk: "take (Suc k) (files ns) = take k (files ns) @ [files ns ! k]"
    by (simp add: take_Suc_conv_app_nth)
  from trip have over: "total_bytes st + size_of env ?root (files ns ! k) > max_bytes ns"
    by (simp add: tk facts(2))
  from reg have "is_regular env ?root (files ns ! k)" by simp
  with over have one: "load_one env (max_bytes ns) ?root (files ns ! k) st =
      Inl (Return2 (too_large_msg (max_bytes ns)),
           log st @ file_events env ?root (files ns ! k))"
    by (simp add: load_one_eq)
  from loader_stops_at [OF k st one] main_within_limit [OF lim, of env]
  have m: "main env ns = \<lparr>exit_code = 2, stdout = [],
      stderr = [too_large_msg (max_bytes ns)], uncaught = None,
      trace = log st @ file_events env ?root (files ns ! k)\<rparr>"
    by simp
  have "read_paths (log st @ file_events env ?root (files ns ! k)) =
      map (arg_path env ?root) (take (Suc k) (files ns))"
    by (simp add: tk facts(3) read_paths_append read_paths_probe
        read_paths_concat_file_events read_paths_file_events)
  with m show ?thesis by simp
qed

theorem byte_budget_enforced_witness:
  "exit_code (main demo_env demo_tight) = 2 \<and>
   stdout (main demo_env demo_tight) = [] \<and>
   stderr (main demo_env demo_tight) =
     [u ''ERROR: Context pack too large (>5 bytes). Reduce files or raise --max-bytes cautiously.''] \<and>
   read_paths (trace (main demo_env demo_tight)) = [u ''/repo/a.txt'', u ''/repo/b.txt'']"
proof -
  have k: "1 < length (files demo_tight)"
    by (simp add: demo_tight_facts)
  have reg: "\<forall>j \<le> 1. is_regular demo_env (probed_root demo_env demo_tight) (files demo_tight ! j)"
    by (simp add: demo_tight_facts le_Suc_eq demo_regular)
  have before: "(1::nat) = 0 \<or>
      sum_list (map (size_of demo_env (probed_root demo_env demo_tight)) (take 1 (files demo_tight)))
        \<le> max_bytes demo_tight"
    by (simp add: demo_tight_facts demo_size)
  have trip: "sum_list (map (size_of demo_env (probed_root demo_env demo_tight))
      (take (Suc 1) (files demo_tight))) > max_bytes demo_tight"
    by (simp add: demo_tight_facts demo_size)
  from byte_budget_enforced [OF demo_tight_facts(1) k reg before trip]
  show ?thesis
    by (simp add: demo_tight_facts demo_arg_path too_large_msg_def str_int_def digits.simps)
       (simp add: u_def)
qed

subsection \<open>Missing files\<close>

lemma main_uncaught:
  "exit_code (main env ns) = 1 \<longleftrightarrow> uncaught (main env ns) \<noteq> None"
proof (cases "int (length (files ns)) > max_files ns")
  case True
  then show ?thesis by (simp add: main_def)
next
  case False
  show ?thesis
  proof (cases "loader_after env ns (length (files ns))")
    case (Inl h)
    then show ?thesis
      by (cases h rule: halted.cases) (simp_all add: main_within_limit [OF False])
  next
    case (Inr st)
    then show ?thesis by (simp add: main_within_limit [OF False])
  qed
qed

text \<open>
  C8, as the code has it. A requested path for which the test of line 83 answers
  that it does not exist or is not a regular file makes the run print nothing to
  standard output and exit with a code other than 0, wherever it stands in the
  argument list: code 2, or code 1 when an exception that nothing catches ended the
  run before. When it is the first failure of the run (the file count is within the
  limit, every earlier path is a regular file whose text is read, and the earlier
  files fit the byte budget) the exit code is 2 and the diagnostic names its original
  argument.
\<close>

theorem missing_file_rejected:
  assumes i: "i < length (files ns)"
    and bad: "refused env (probed_root env ns) (files ns ! i)"
  shows "stdout (main env ns) = [] \<and>
         (exit_code (main env ns) = 2 \<or> exit_code (main env ns) = 1) \<and>
         (exit_code (main env ns) = 1 \<longleftrightarrow> uncaught (main env ns) \<noteq> None) \<and>
         (\<not> int (length (files ns)) > max_files ns \<longrightarrow>
          (\<forall>j < i. is_regular env (probed_root env ns) (files ns ! j)) \<longrightarrow>
          (i = 0 \<or> sum_list (map (size_of env (probed_root env ns)) (take i (files ns)))
             \<le> max_bytes ns) \<longrightarrow>
          exit_code (main env ns) = 2 \<and>
          stderr (main env ns) = [not_a_file_msg (files ns ! i)])"
proof (intro conjI impI)
  have "exit_code (main env ns) \<noteq> 0"
  proof
    assume ok: "exit_code (main env ns) = 0"
    from main_success(2) [OF ok] obtain st where
      "loader_after env ns (length (files ns)) = Inr st" by blast
    from loader_after_Inr(4) [OF this] i refused_not_regular [OF bad] show False by simp
  qed
  from main_failure_silent [OF this]
  show "exit_code (main env ns) = 2 \<or> exit_code (main env ns) = 1"
    and "stdout (main env ns) = []" by simp_all
  show "exit_code (main env ns) = 1 \<longleftrightarrow> uncaught (main env ns) \<noteq> None"
    by (rule main_uncaught)
next
  let ?root = "probed_root env ns"
  assume lim: "\<not> int (length (files ns)) > max_files ns"
    and reg: "\<forall>j < i. is_regular env ?root (files ns ! j)"
    and before: "i = 0 \<or>
      sum_list (map (size_of env ?root) (take i (files ns))) \<le> max_bytes ns"
  from loader_after_accepts [OF reg _ before] i
  obtain st where st: "loader_after env ns i = Inr st" by auto
  from bad obtain tr where
    "load_one env (max_bytes ns) ?root (files ns ! i) st =
       Inl (Return2 (not_a_file_msg (files ns ! i)), tr)"
    by (simp add: load_one_eq refused_not_regular refused_early_halt)
  from loader_stops_at [OF i st this] main_within_limit [OF lim, of env]
  show "exit_code (main env ns) = 2"
    and "stderr (main env ns) = [not_a_file_msg (files ns ! i)]" by simp_all
qed

theorem missing_file_rejected_witness:
  "exit_code (main demo_env demo_bad_last) = 2 \<and>
   stdout (main demo_env demo_bad_last) = [] \<and>
   stderr (main demo_env demo_bad_last) = [u ''ERROR: Not a file or missing: docs'']"
proof -
  have i: "1 < length (files demo_bad_last)"
    by (simp add: demo_bad_last_facts)
  have bad: "refused demo_env (probed_root demo_env demo_bad_last) (files demo_bad_last ! 1)"
    by (simp add: demo_bad_last_facts demo_refused)
  have reg: "\<forall>j < 1. is_regular demo_env (probed_root demo_env demo_bad_last) (files demo_bad_last ! j)"
    by (simp add: demo_bad_last_facts demo_regular)
  have before: "(1::nat) = 0 \<or>
      sum_list (map (size_of demo_env (probed_root demo_env demo_bad_last))
        (take 1 (files demo_bad_last))) \<le> max_bytes demo_bad_last"
    by (simp add: demo_bad_last_facts demo_size)
  note t = missing_file_rejected [OF i bad]
  note first = t [THEN conjunct2, THEN conjunct2, THEN conjunct2, THEN mp,
      OF demo_bad_last_facts(1), THEN mp, OF reg, THEN mp, OF before]
  from first [THEN conjunct2]
  have "stderr (main demo_env demo_bad_last) = [u ''ERROR: Not a file or missing: docs'']"
    by (simp add: demo_bad_last_facts not_a_file_msg_def u_def)
  with first [THEN conjunct1] t [THEN conjunct1] show ?thesis by simp
qed

text \<open>
  Read for every such path, whatever fails before it, the claim does not hold: with
  two missing paths the run stops at the first, and the second is never named.
\<close>

theorem missing_file_named_counterexample:
  "refused demo_env (probed_root demo_env demo_two_missing) (files demo_two_missing ! 1) \<and>
   stderr (main demo_env demo_two_missing) = [u ''ERROR: Not a file or missing: x.txt''] \<and>
   not_a_file_msg (files demo_two_missing ! 1) \<notin> set (stderr (main demo_env demo_two_missing))"
  by (simp add: demo_two_missing_stderr demo_two_missing_facts demo_refused)
     (simp add: not_a_file_msg_def u_def)

text \<open>
  A path that the system refuses to examine, or a regular file that may not be read,
  is neither accepted nor refused by that test: the exception leaves \<open>main\<close>, no
  diagnostic of the program is printed and the exit code is 1.
\<close>

lemma demo_not_read:
  "\<not> is_regular demo_env (Some (u ''/repo'')) (u ''long'')"
  "\<not> is_regular demo_env (Some (u ''/repo'')) (u ''locked.txt'')"
  by (simp_all add: is_regular_def demo_arg_path file_system_calls)
     (simp_all add: demo_defs)

lemma demo_early_halt:
  "fst (early_halt demo_env (Some (u ''/repo'')) (u ''long'')) = Uncaught OSError"
  "fst (early_halt demo_env (Some (u ''/repo'')) (u ''locked.txt'')) = Uncaught OSError"
  by (simp_all add: early_halt_def resolve_arg_def file_system_calls demo_defs Let_def)

lemma demo_uncaught_runs:
  "exit_code (main demo_env (demo_args [u ''long''])) = 1"
  "uncaught (main demo_env (demo_args [u ''long''])) = Some OSError"
  "stderr (main demo_env (demo_args [u ''long''])) = []"
  "exit_code (main demo_env (demo_args [u ''a.txt'', u ''locked.txt'', u ''x.txt''])) = 1"
  "stdout (main demo_env (demo_args [u ''a.txt'', u ''locked.txt'', u ''x.txt''])) = []"
  by (simp_all add: main_def demo_args_def demo_probe DEFAULT_MAX_FILES_def
        DEFAULT_MAX_BYTES_def load_one_eq demo_regular demo_size demo_not_read demo_early_halt)

subsection \<open>Resolving and displaying a path\<close>



lemma main_success_entries:
  assumes "exit_code (main env ns) = 0"
  shows "stdout (main env ns) =
           emit (fence ns) (fst (probe env (no_git ns))) (utc_now env)
             (map (file_entry env (probed_root env ns)) (files ns))"
    and "trace (main env ns) = snd (probe env (no_git ns)) @
           concat (map (file_events env (probed_root env ns)) (files ns))"
    and "\<forall>raw \<in> set (files ns). is_regular env (probed_root env ns) raw"
proof -
  from main_success(2) [OF assms] obtain st where
    st: "loader_after env ns (length (files ns)) = Inr st" and
    out: "stdout (main env ns) =
      emit (fence ns) (fst (probe env (no_git ns))) (utc_now env) (entries st)" and
    tr: "trace (main env ns) = log st"
    by blast
  note facts = loader_after_Inr [OF st]
  from out facts(1) show "stdout (main env ns) =
      emit (fence ns) (fst (probe env (no_git ns))) (utc_now env)
        (map (file_entry env (probed_root env ns)) (files ns))" by simp
  from tr facts(3) show "trace (main env ns) = snd (probe env (no_git ns)) @
      concat (map (file_events env (probed_root env ns)) (files ns))" by simp
  from facts(4) show "\<forall>raw \<in> set (files ns). is_regular env (probed_root env ns) raw"
    by simp
qed



subsection \<open>The envelope\<close>

lemma printed_append: "printed (xs @ ys) = printed xs @ printed ys"
  by (simp add: printed_def)

lemma printed_Cons: "printed (x # xs) = x @ [10] @ printed xs"
  by (simp add: printed_def)

lemma records_end_blank:
  "es \<noteq> [] \<Longrightarrow> \<exists>body. concat (map emit_file es) = body @ [[]]"
proof (induction es rule: rev_induct)
  case Nil
  then show ?case by simp
next
  case (snoc e es)
  obtain dp dg c where e: "e = (dp, dg, c)" by (cases e)
  have "concat (map emit_file (es @ [e])) =
      (concat (map emit_file es) @
       [u ''BEGIN_FILE'', u ''path: '' @ dp, u ''sha256: '' @ dg, u ''CONTENT_START'',
        rstrip_nl c, u ''CONTENT_END'', u ''END_FILE'']) @ [[]]"
    by (simp add: e)
  then show ?case by blast
qed

lemma pack_body_shape:
  "\<exists>body. header m now n @ concat (map emit_file es) =
            u ''BEGIN_CONTEXT_PACK'' # body @ [[]]"
proof (cases "es = []")
  case True
  have "header m now n =
      u ''BEGIN_CONTEXT_PACK'' #
      ([u ''generated_utc: '' @ now] @ opt_line ''repo_root: '' (repo_root m) @
       opt_line ''repo_name: '' (repo_name m) @ opt_line ''git_branch: '' (branch m) @
       opt_line ''git_commit: '' (commit m) @ [u ''file_count: '' @ str_int (int n)]) @ [[]]"
    by (simp add: header_def)
  with True show ?thesis by auto
next
  case False
  from records_end_blank [OF this] obtain b where
    b: "concat (map emit_file es) = b @ [[]]" by blast
  have "header m now n @ concat (map emit_file es) =
      u ''BEGIN_CONTEXT_PACK'' # (tl (header m now n) @ b) @ [[]]"
    by (simp add: b header_def)
  then show ?thesis by blast
qed

text \<open>
  C6. On a successful run standard output begins with the line
  \<open>BEGIN_CONTEXT_PACK\<close> and ends with the line \<open>END_CONTEXT_PACK\<close>; with
  \<open>--fence\<close> a line of three backticks and \<open>text\<close> comes before the first and a
  line of three backticks after the second.
\<close>

theorem pack_sentinels:
  "exit_code (main env ns) = 0 \<Longrightarrow>
     \<exists>mid. printed (stdout (main env ns)) =
       (if fence ns then u ''```text'' @ [10] else []) @
       u ''BEGIN_CONTEXT_PACK'' @ [10] @ mid @ [10] @ u ''END_CONTEXT_PACK'' @ [10] @
       (if fence ns then u ''```'' @ [10] else [])"
proof -
  assume ok: "exit_code (main env ns) = 0"
  let ?m = "fst (probe env (no_git ns))"
  let ?es = "map (file_entry env (probed_root env ns)) (files ns)"
  from pack_body_shape [of ?m "utc_now env" "length ?es" ?es] obtain body where
    body: "header ?m (utc_now env) (length ?es) @ concat (map emit_file ?es) =
      u ''BEGIN_CONTEXT_PACK'' # body @ [[]]" by blast
  have "stdout (main env ns) =
      (if fence ns then [u ''```text''] else []) @
      (header ?m (utc_now env) (length ?es) @ concat (map emit_file ?es)) @
      [u ''END_CONTEXT_PACK''] @ (if fence ns then [u ''```''] else [])"
    by (simp add: main_success_entries(1) [OF ok] emit_def)
  then have "printed (stdout (main env ns)) =
      (if fence ns then u ''```text'' @ [10] else []) @
      u ''BEGIN_CONTEXT_PACK'' @ [10] @ printed body @ [10] @ u ''END_CONTEXT_PACK'' @ [10] @
      (if fence ns then u ''```'' @ [10] else [])"
    by (simp only: body) (simp add: printed_append printed_Cons, simp add: printed_def)
  then show ?thesis by blast
qed

lemma demo_fenced_ok: "exit_code (main demo_env demo_fenced) = 0"
proof -
  have lim: "\<not> int (length (files demo_fenced)) > max_files demo_fenced"
    using demo_two_lim by (simp add: demo_fenced_def)
  have "loader_after demo_env demo_fenced (length (files demo_fenced)) = Inr demo_two_loaded"
    using demo_two_run by (simp add: demo_fenced_def loader_after_def probed_root_def demo_two_len)
  with main_within_limit [OF lim, of demo_env] show ?thesis by simp
qed

theorem pack_sentinels_witness:
  "\<exists>mid. printed (stdout (main demo_env demo_fenced)) =
     u ''```text'' @ [10] @ u ''BEGIN_CONTEXT_PACK'' @ [10] @ mid @ [10] @
     u ''END_CONTEXT_PACK'' @ [10] @ u ''```'' @ [10]"
  using pack_sentinels [OF demo_fenced_ok] by (simp add: demo_fenced_def)

subsection \<open>The digest\<close>














subsection \<open>Recomputing the digest from the pack\<close>









subsection \<open>The repository probe\<close>

lemma git_queries_append: "git_queries (xs @ ys) = git_queries xs @ git_queries ys"
  by (induction xs rule: git_queries.induct) simp_all

lemma git_queries_resolve_arg: "git_queries (snd (resolve_arg env root raw)) = []"
  by (simp add: resolve_arg_def Let_def)

lemma git_queries_display_path: "git_queries (snd (display_path env root p)) = []"
  by (simp add: display_path_def split: option.splits)

lemma git_queries_file_events: "git_queries (file_events env root raw) = []"
  by (simp add: file_events_def git_queries_append git_queries_resolve_arg
      git_queries_display_path)

lemma git_queries_early_halt: "git_queries (snd (early_halt env root raw)) = []"
proof (cases "resolve_arg env root raw")
  case (Pair p ev1)
  with git_queries_resolve_arg [of env root raw] show ?thesis
    by (cases "fs_node env p")
       (simp_all add: early_halt_def file_system_calls git_queries_append)
qed

lemma load_one_git_queries:
  "git_queries (result_log (load_one env mb root raw st)) = git_queries (log st)"
  by (simp add: load_one_eq result_log_def git_queries_append git_queries_early_halt
      git_queries_file_events)

lemma load_files_git_queries:
  "git_queries (result_log (load_files env mb root fs st)) = git_queries (log st)"
proof (induction fs arbitrary: st)
  case Nil
  then show ?case by (simp add: result_log_def)
next
  case (Cons raw rest)
  show ?case
  proof (cases "load_one env mb root raw st")
    case (Inl e)
    with load_one_git_queries [of env mb root raw st] show ?thesis by simp
  next
    case (Inr st')
    with load_one_git_queries [of env mb root raw st] Cons.IH [of st'] show ?thesis
      by (simp add: result_log_def)
  qed
qed

lemma main_trace:
  "\<not> int (length (files ns)) > max_files ns \<Longrightarrow>
   trace (main env ns) = result_log (loader_after env ns (length (files ns)))"
  by (cases "loader_after env ns (length (files ns))")
     (auto simp: main_within_limit result_log_def halted_trace)

lemma probe_git_queries:
  "git_queries (snd (probe env ng)) =
     (if ng then [] else if truthy (run_git env git_toplevel)
      then [git_toplevel, git_branch, git_commit] else [git_toplevel])"
  by (simp add: probe_def Let_def)

lemma main_git_queries:
  "git_queries (trace (main env ns)) =
     (if int (length (files ns)) > max_files ns \<or> no_git ns then []
      else if truthy (run_git env git_toplevel) then [git_toplevel, git_branch, git_commit]
      else [git_toplevel])"
proof (cases "int (length (files ns)) > max_files ns")
  case True
  then show ?thesis by (simp add: main_def)
next
  case False
  then show ?thesis
    by (simp add: main_trace loader_after_def load_files_git_queries probe_git_queries)
qed

lemma load_one_same_Inl:
  "entries st = entries st' \<Longrightarrow> total_bytes st = total_bytes st' \<Longrightarrow>
   load_one env mb root raw st = Inl (msg, tr) \<Longrightarrow>
   \<exists>tr'. load_one env mb root raw st' = Inl (msg, tr')"
  by (simp add: load_one_eq split: if_splits)

lemma load_one_same_Inr:
  "entries st = entries st' \<Longrightarrow> total_bytes st = total_bytes st' \<Longrightarrow>
   load_one env mb root raw st = Inr s \<Longrightarrow>
   \<exists>s'. load_one env mb root raw st' = Inr s' \<and>
        entries s = entries s' \<and> total_bytes s = total_bytes s'"
  by (auto simp: load_one_eq split: if_splits)

lemma load_files_verdict:
  "entries st = entries st' \<Longrightarrow> total_bytes st = total_bytes st' \<Longrightarrow>
   verdict (load_files env mb root fs st) = verdict (load_files env mb root fs st')"
proof (induction fs arbitrary: st st')
  case Nil
  then show ?case by (simp add: verdict_def)
next
  case (Cons raw rest)
  show ?case
  proof (cases "load_one env mb root raw st")
    case (Inl e)
    obtain msg tr where e: "e = (msg, tr)" by (cases e)
    from load_one_same_Inl [OF Cons.prems Inl [unfolded e]] obtain tr' where
      "load_one env mb root raw st' = Inl (msg, tr')" by blast
    with Inl e show ?thesis by (simp add: verdict_def)
  next
    case (Inr s)
    from load_one_same_Inr [OF Cons.prems Inr] obtain s' where
      s': "load_one env mb root raw st' = Inr s'" and
      same: "entries s = entries s'" "total_bytes s = total_bytes s'" by blast
    from Cons.IH [OF same] Inr s' show ?thesis by simp
  qed
qed

lemma halted_streams:
  "exit_code (halted (h, tr)) = halt_code h" "stdout (halted (h, tr)) = []"
  "stderr (halted (h, tr)) = halt_stderr h"
  by (cases h, simp_all)+

lemma main_streams:
  "\<not> int (length (files ns)) > max_files ns \<Longrightarrow>
   (exit_code (main env ns), stdout (main env ns), stderr (main env ns)) =
     (case verdict (loader_after env ns (length (files ns))) of
        Inl h \<Rightarrow> (halt_code h, [], halt_stderr h)
      | Inr es \<Rightarrow> (0, emit (fence ns) (fst (probe env (no_git ns))) (utc_now env) es, []))"
proof (cases "loader_after env ns (length (files ns))")
  case (Inl e)
  assume lim: "\<not> int (length (files ns)) > max_files ns"
  obtain h tr where e: "e = (h, tr)" by (cases e)
  from Inl e show ?thesis
    by (simp add: main_within_limit [OF lim] verdict_def halted_streams)
next
  case (Inr st)
  assume lim: "\<not> int (length (files ns)) > max_files ns"
  from Inr show ?thesis
    by (simp add: main_within_limit [OF lim] verdict_def)
qed

lemma probe_root_failed:
  "git_output env git_toplevel = None \<Longrightarrow>
   fst (probe env ng) = \<lparr>repo_root = None, repo_name = None, branch = None, commit = None\<rparr>"
  by (simp add: probe_def run_git_def)

lemma main_streams_root_failed:
  assumes "git_output env git_toplevel = None"
  shows "(exit_code (main env ns), stdout (main env ns), stderr (main env ns)) =
         (exit_code (main env (ns\<lparr>no_git := True\<rparr>)), stdout (main env (ns\<lparr>no_git := True\<rparr>)),
          stderr (main env (ns\<lparr>no_git := True\<rparr>)))"
proof (cases "int (length (files ns)) > max_files ns")
  case True
  then show ?thesis by (simp add: main_def)
next
  case False
  then have lim: "\<not> int (length (files (ns\<lparr>no_git := True\<rparr>))) > max_files (ns\<lparr>no_git := True\<rparr>)"
    by simp
  have v: "verdict (loader_after env ns (length (files ns))) =
      verdict (loader_after env (ns\<lparr>no_git := True\<rparr>) (length (files ns)))"
    unfolding loader_after_def probed_root_def
    by (simp add: probe_root_failed [OF assms]) (rule load_files_verdict, simp_all)
  have m: "fst (probe env (no_git ns)) = fst (probe env True)"
    by (simp add: probe_root_failed [OF assms])
  have "(exit_code (main env ns), stdout (main env ns), stderr (main env ns)) =
     (case verdict (loader_after env (ns\<lparr>no_git := True\<rparr>) (length (files ns))) of
        Inl h \<Rightarrow> (halt_code h, [], halt_stderr h)
      | Inr es \<Rightarrow> (0, emit (fence ns) (fst (probe env True)) (utc_now env) es, []))"
    unfolding main_streams [OF False] v m ..
  also have "\<dots> = (exit_code (main env (ns\<lparr>no_git := True\<rparr>)),
      stdout (main env (ns\<lparr>no_git := True\<rparr>)), stderr (main env (ns\<lparr>no_git := True\<rparr>)))"
    unfolding main_streams [OF lim]
    by (cases "verdict (loader_after env (ns\<lparr>no_git := True\<rparr>) (length (files ns)))")
       simp_all
  finally show ?thesis .
qed

lemma load_files_Inl_msg:
  "load_files env mb root fs st = Inl (Return2 msg, tr) \<Longrightarrow>
     msg = too_large_msg mb \<or> msg \<in> not_a_file_msg ` set fs"
proof (induction fs arbitrary: st)
  case Nil
  then show ?case by simp
next
  case (Cons raw rest)
  show ?case
  proof (cases "load_one env mb root raw st")
    case (Inl e)
    with Cons.prems have "load_one env mb root raw st = Inl (Return2 msg, tr)" by simp
    then have "msg = too_large_msg mb \<or> msg = not_a_file_msg raw"
      by (auto simp: load_one_eq split: if_splits dest: early_halt_Return2)
    then show ?thesis by auto
  next
    case (Inr st')
    with Cons.prems have "load_files env mb root rest st' = Inl (Return2 msg, tr)" by simp
    from Cons.IH [OF this] show ?thesis by auto
  qed
qed

lemma stderr_kinds:
  "set (stderr (main env ns)) \<subseteq>
     {too_many_msg (length (files ns)) (max_files ns), too_large_msg (max_bytes ns)} \<union>
     not_a_file_msg ` set (files ns)"
proof (cases "int (length (files ns)) > max_files ns")
  case True
  then show ?thesis by (simp add: main_def)
next
  case False
  show ?thesis
  proof (cases "loader_after env ns (length (files ns))")
    case (Inl e)
    show ?thesis
    proof (cases e rule: halted.cases)
      case (1 msg tr)
      with Inl have "load_files env (max_bytes ns) (probed_root env ns) (files ns)
          \<lparr>entries = [], total_bytes = 0, log = snd (probe env (no_git ns))\<rparr> =
          Inl (Return2 msg, tr)"
        by (simp add: loader_after_def)
      from load_files_Inl_msg [OF this] Inl 1 show ?thesis
        by (auto simp: main_within_limit [OF False])
    next
      case (2 x tr)
      with Inl show ?thesis by (simp add: main_within_limit [OF False])
    qed
  next
    case (Inr st)
    then show ?thesis by (simp add: main_within_limit [OF False])
  qed
qed

lemma probe_no_git:
  "probe env True =
     (\<lparr>repo_root = None, repo_name = None, branch = None, commit = None\<rparr>, [])"
  by (simp add: probe_def)

lemma header_no_repo:
  "\<not> truthy r \<Longrightarrow>
   header \<lparr>repo_root = r, repo_name = None, branch = None, commit = None\<rparr> now n =
     [u ''BEGIN_CONTEXT_PACK'', u ''generated_utc: '' @ now,
      u ''file_count: '' @ str_int (int n), []]"
  by (simp add: header_def opt_line_def)

text \<open>
  C9. A version-control query that fails gives an absent value for its field: the
  run goes on, its exit code and both streams are those of a run without probing
  when the root query fails, and the error stream only ever carries one of the three
  diagnostics of the program. The branch and the commit are queried only after the
  root query gave a non-empty answer. With \<open>--no-git\<close> the header of the pack is the
  sentinel, the timestamp, the file count and the blank line: no \<open>repo_root\<close>,
  \<open>repo_name\<close>, \<open>git_branch\<close> or \<open>git_commit\<close> line.
\<close>

theorem git_probe_tolerant:
  "(git_output env a = None \<longrightarrow> run_git env a = None) \<and>
   (git_output env git_toplevel = None \<longrightarrow>
      fst (probe env ng) =
        \<lparr>repo_root = None, repo_name = None, branch = None, commit = None\<rparr> \<and>
      exit_code (main env ns) = exit_code (main env (ns\<lparr>no_git := True\<rparr>)) \<and>
      stdout (main env ns) = stdout (main env (ns\<lparr>no_git := True\<rparr>)) \<and>
      stderr (main env ns) = stderr (main env (ns\<lparr>no_git := True\<rparr>))) \<and>
   (git_output env git_branch = None \<longrightarrow>
      branch (fst (probe env ng)) = None \<and> opt_line ''git_branch: '' (branch (fst (probe env ng))) = []) \<and>
   (git_output env git_commit = None \<longrightarrow>
      commit (fst (probe env ng)) = None \<and> opt_line ''git_commit: '' (commit (fst (probe env ng))) = []) \<and>
   set (stderr (main env ns)) \<subseteq>
     {too_many_msg (length (files ns)) (max_files ns), too_large_msg (max_bytes ns)} \<union>
     not_a_file_msg ` set (files ns) \<and>
   git_queries (trace (main env ns)) =
     (if int (length (files ns)) > max_files ns \<or> no_git ns then []
      else if truthy (run_git env git_toplevel) then [git_toplevel, git_branch, git_commit]
      else [git_toplevel]) \<and>
   (no_git ns \<longrightarrow> exit_code (main env ns) = 0 \<longrightarrow>
      stdout (main env ns) =
        (if fence ns then [u ''```text''] else []) @
        [u ''BEGIN_CONTEXT_PACK'', u ''generated_utc: '' @ utc_now env,
         u ''file_count: '' @ str_int (int (length (files ns))), []] @
        concat (map emit_file (map (file_entry env None) (files ns))) @
        [u ''END_CONTEXT_PACK''] @ (if fence ns then [u ''```''] else []))"
proof (intro conjI impI)
  show "run_git env a = None" if "git_output env a = None"
    using that by (simp add: run_git_def)
  show "fst (probe env ng) =
      \<lparr>repo_root = None, repo_name = None, branch = None, commit = None\<rparr>"
    if "git_output env git_toplevel = None"
    by (rule probe_root_failed [OF that])
  show "exit_code (main env ns) = exit_code (main env (ns\<lparr>no_git := True\<rparr>))"
    and "stdout (main env ns) = stdout (main env (ns\<lparr>no_git := True\<rparr>))"
    and "stderr (main env ns) = stderr (main env (ns\<lparr>no_git := True\<rparr>))"
    if "git_output env git_toplevel = None"
    using main_streams_root_failed [OF that, of ns] by simp_all
  show br: "branch (fst (probe env ng)) = None" if "git_output env git_branch = None"
    using that by (simp add: probe_def run_git_def Let_def)
  show "opt_line ''git_branch: '' (branch (fst (probe env ng))) = []"
    if "git_output env git_branch = None"
    by (simp add: br [OF that] opt_line_def)
  show cm: "commit (fst (probe env ng)) = None" if "git_output env git_commit = None"
    using that by (simp add: probe_def run_git_def Let_def)
  show "opt_line ''git_commit: '' (commit (fst (probe env ng))) = []"
    if "git_output env git_commit = None"
    by (simp add: cm [OF that] opt_line_def)
  show "set (stderr (main env ns)) \<subseteq>
     {too_many_msg (length (files ns)) (max_files ns), too_large_msg (max_bytes ns)} \<union>
     not_a_file_msg ` set (files ns)"
    by (rule stderr_kinds)
  show "git_queries (trace (main env ns)) =
     (if int (length (files ns)) > max_files ns \<or> no_git ns then []
      else if truthy (run_git env git_toplevel) then [git_toplevel, git_branch, git_commit]
      else [git_toplevel])"
    by (rule main_git_queries)
  show "stdout (main env ns) =
        (if fence ns then [u ''```text''] else []) @
        [u ''BEGIN_CONTEXT_PACK'', u ''generated_utc: '' @ utc_now env,
         u ''file_count: '' @ str_int (int (length (files ns))), []] @
        concat (map emit_file (map (file_entry env None) (files ns))) @
        [u ''END_CONTEXT_PACK''] @ (if fence ns then [u ''```''] else [])"
    if ng: "no_git ns" and ok: "exit_code (main env ns) = 0"
  proof -
    have root: "probed_root env ns = None"
      by (simp add: probed_root_def ng probe_no_git)
    from main_success_entries(1) [OF ok] show ?thesis
      by (simp add: root ng probe_no_git emit_def header_no_repo)
  qed
qed

theorem git_probe_tolerant_witness:
  "fst (probe demo_nogit_env False) =
     \<lparr>repo_root = None, repo_name = None, branch = None, commit = None\<rparr> \<and>
   exit_code (main demo_nogit_env demo_two) =
     exit_code (main demo_nogit_env (demo_two\<lparr>no_git := True\<rparr>)) \<and>
   stdout (main demo_nogit_env demo_two) =
     stdout (main demo_nogit_env (demo_two\<lparr>no_git := True\<rparr>)) \<and>
   git_queries (trace (main demo_nogit_env demo_two)) = [git_toplevel]"
proof -
  have off: "git_output demo_nogit_env git_toplevel = None"
    by (simp add: demo_nogit_env_def)
  note t = git_probe_tolerant [of demo_nogit_env git_toplevel False demo_two]
  note root = t [THEN conjunct2, THEN conjunct1, THEN mp, OF off]
  note queries = t [THEN conjunct2, THEN conjunct2, THEN conjunct2, THEN conjunct2,
      THEN conjunct2, THEN conjunct1]
  have "run_git demo_nogit_env git_toplevel = None"
    using t [THEN conjunct1, THEN mp, OF off] .
  with queries demo_two_lim
  have "git_queries (trace (main demo_nogit_env demo_two)) = [git_toplevel]"
    by (simp add: demo_two_def demo_args_def)
  with root show ?thesis by simp
qed

subsection \<open>An empty answer for the root\<close>

lemma resolve_arg_without_git:
  "resolve_arg (env\<lparr>git_output := g\<rparr>) root raw = resolve_arg env root raw"
  by (simp add: resolve_arg_def Let_def)

lemma display_path_without_git:
  "display_path (env\<lparr>git_output := g\<rparr>) root p = display_path env root p"
  by (simp add: display_path_def split: option.splits)

lemma resolve_arg_falsy_root:
  "resolve_arg env (Some []) raw = resolve_arg env None raw"
  by (simp add: resolve_arg_def Let_def)

lemma display_path_falsy_root:
  "display_path env (Some []) p = display_path env None p"
  by (simp add: display_path_def)

lemma file_system_without_git:
  "path_exists (env\<lparr>git_output := g\<rparr>) p = path_exists env p"
  "path_is_file (env\<lparr>git_output := g\<rparr>) p = path_is_file env p"
  "read_text_file (env\<lparr>git_output := g\<rparr>) p = read_text_file env p"
  by (simp_all add: file_system_calls)

lemma early_halt_without_git:
  "early_halt (env\<lparr>git_output := g\<rparr>) root raw = early_halt env root raw"
proof (cases "resolve_arg env root raw")
  case (Pair p ev1)
  then show ?thesis
    by (cases "fs_node env p")
       (simp_all add: early_halt_def file_system_calls resolve_arg_without_git)
qed

lemma early_halt_falsy_root: "early_halt env (Some []) raw = early_halt env None raw"
  by (simp add: early_halt_def resolve_arg_falsy_root)

lemmas loop_vocabulary = is_regular_def arg_path_def size_of_def content_of_def file_entry_def
  file_events_def file_system_without_git early_halt_without_git early_halt_falsy_root

lemma load_one_without_git:
  "load_one (env\<lparr>git_output := g\<rparr>) mb root raw st = load_one env mb root raw st"
  by (simp add: load_one_eq loop_vocabulary resolve_arg_without_git display_path_without_git)

lemma load_one_falsy_root:
  "load_one env mb (Some []) raw st = load_one env mb None raw st"
  by (simp add: load_one_eq loop_vocabulary resolve_arg_falsy_root display_path_falsy_root)

lemma load_files_without_git:
  "load_files (env\<lparr>git_output := g\<rparr>) mb root fs st = load_files env mb root fs st"
  by (induction fs arbitrary: st) (simp_all add: load_one_without_git split: sum.splits)

lemma load_files_falsy_root:
  "load_files env mb (Some []) fs st = load_files env mb None fs st"
  by (induction fs arbitrary: st) (simp_all add: load_one_falsy_root split: sum.splits)

lemma file_entry_falsy_root:
  "file_entry env (Some []) raw = file_entry env None raw"
  by (simp add: loop_vocabulary resolve_arg_falsy_root display_path_falsy_root)

lemma probe_empty_root:
  "run_git env git_toplevel = Some [] \<Longrightarrow>
   probe env False =
     (\<lparr>repo_root = Some [], repo_name = None, branch = None, commit = None\<rparr>,
      [GitQuery git_toplevel])"
  by (simp add: probe_def)

lemma probe_failed_root:
  "run_git env git_toplevel = None \<Longrightarrow>
   probe env False =
     (\<lparr>repo_root = None, repo_name = None, branch = None, commit = None\<rparr>,
      [GitQuery git_toplevel])"
  by (simp add: probe_def)

lemma emit_no_repo:
  "\<not> truthy r \<Longrightarrow>
   emit fc \<lparr>repo_root = r, repo_name = None, branch = None, commit = None\<rparr> now es =
   emit fc \<lparr>repo_root = None, repo_name = None, branch = None, commit = None\<rparr> now es"
  by (simp add: emit_def header_no_repo)

lemma main_empty_root:
  assumes "run_git env git_toplevel = Some []"
  shows "main env ns = main (env\<lparr>git_output := (git_output env)(git_toplevel := None)\<rparr>) ns"
proof (cases "int (length (files ns)) > max_files ns")
  case True
  then show ?thesis by (simp add: main_def)
next
  case False
  let ?env = "env\<lparr>git_output := (git_output env)(git_toplevel := None)\<rparr>"
  show ?thesis
  proof (cases "no_git ns")
    case True
    with False show ?thesis
      by (cases "load_files env (max_bytes ns) None (files ns)
            \<lparr>entries = [], total_bytes = 0, log = []\<rparr>")
         (simp_all add: main_def probe_no_git load_files_without_git)
  next
    case ng: False
    have failed: "run_git ?env git_toplevel = None"
      by (simp add: run_git_def)
    let ?st = "\<lparr>entries = [], total_bytes = 0, log = [GitQuery git_toplevel]\<rparr> :: 'a loader"
    have same: "load_files ?env (max_bytes ns) None (files ns) ?st =
        load_files env (max_bytes ns) (Some []) (files ns) ?st"
      by (simp add: load_files_without_git load_files_falsy_root)
    show ?thesis
    proof (cases "load_files env (max_bytes ns) (Some []) (files ns) ?st")
      case (Inl e)
      with False ng same show ?thesis
        by (simp add: main_def probe_empty_root [OF assms] probe_failed_root [OF failed])
    next
      case (Inr st)
      with False ng same show ?thesis
        by (simp add: main_def probe_empty_root [OF assms] probe_failed_root [OF failed]
            emit_no_repo [of "Some []"])
    qed
  qed
qed

text \<open>
  C10. When the root query answers with an empty string the run is, outcome and log
  alike, the run in which that query fails: the branch and the commit are not
  queried, the header has no \<open>repo_root\<close>, \<open>repo_name\<close>, \<open>git_branch\<close> or
  \<open>git_commit\<close> line, and a relative path is resolved against the working directory.
\<close>

theorem empty_root_as_no_repository:
  assumes "run_git env git_toplevel = Some []"
  shows "main env ns = main (env\<lparr>git_output := (git_output env)(git_toplevel := None)\<rparr>) ns \<and>
    git_queries (trace (main env ns)) =
      (if int (length (files ns)) > max_files ns \<or> no_git ns then [] else [git_toplevel]) \<and>
    (exit_code (main env ns) = 0 \<longrightarrow>
       stdout (main env ns) =
         (if fence ns then [u ''```text''] else []) @
         [u ''BEGIN_CONTEXT_PACK'', u ''generated_utc: '' @ utc_now env,
          u ''file_count: '' @ str_int (int (length (files ns))), []] @
         concat (map emit_file (map (file_entry env None) (files ns))) @
         [u ''END_CONTEXT_PACK''] @ (if fence ns then [u ''```''] else [])) \<and>
    arg_path env (probed_root env ns) raw =
      (if is_absolute env (Path env raw) then Path env raw
       else joinpath env (cwd env) (Path env raw))"
proof (intro conjI impI)
  show "main env ns = main (env\<lparr>git_output := (git_output env)(git_toplevel := None)\<rparr>) ns"
    by (rule main_empty_root [OF assms])
  show "git_queries (trace (main env ns)) =
      (if int (length (files ns)) > max_files ns \<or> no_git ns then [] else [git_toplevel])"
    by (simp add: main_git_queries assms)
  have meta: "fst (probe env (no_git ns)) =
      \<lparr>repo_root = (if no_git ns then None else Some []), repo_name = None,
       branch = None, commit = None\<rparr>"
    by (simp add: probe_no_git probe_empty_root [OF assms])
  then have root: "probed_root env ns = (if no_git ns then None else Some [])"
    by (simp add: probed_root_def)
  then have falsy: "\<not> truthy (probed_root env ns)"
    by simp
  show "arg_path env (probed_root env ns) raw =
      (if is_absolute env (Path env raw) then Path env raw
       else joinpath env (cwd env) (Path env raw))"
    using falsy by (simp add: arg_path_def resolve_arg_def Let_def)
  show "stdout (main env ns) =
         (if fence ns then [u ''```text''] else []) @
         [u ''BEGIN_CONTEXT_PACK'', u ''generated_utc: '' @ utc_now env,
          u ''file_count: '' @ str_int (int (length (files ns))), []] @
         concat (map emit_file (map (file_entry env None) (files ns))) @
         [u ''END_CONTEXT_PACK''] @ (if fence ns then [u ''```''] else [])"
    if ok: "exit_code (main env ns) = 0"
  proof -
    have "map (file_entry env (probed_root env ns)) (files ns) =
        map (file_entry env None) (files ns)"
      by (simp add: root file_entry_falsy_root)
    with main_success_entries(1) [OF ok] show ?thesis
      by (simp add: meta emit_def header_no_repo)
  qed
qed

theorem empty_root_as_no_repository_witness:
  "main demo_bare_env demo_two =
     main (demo_bare_env\<lparr>git_output := (git_output demo_bare_env)(git_toplevel := None)\<rparr>)
       demo_two \<and>
   git_queries (trace (main demo_bare_env demo_two)) = [git_toplevel]"
proof -
  have empty: "run_git demo_bare_env git_toplevel = Some []"
    by (simp add: run_git_def demo_bare_env_def strip_def isspace_def)
  note t = empty_root_as_no_repository [OF empty, of demo_two "[]"]
  from t [THEN conjunct2, THEN conjunct1] demo_two_lim
  have "git_queries (trace (main demo_bare_env demo_two)) = [git_toplevel]"
    by (simp add: demo_two_def demo_args_def)
  with t [THEN conjunct1] show ?thesis by simp
qed

end
